theory Spec2Isabelle
  imports Main
begin

text \<open>
  A model of \<open>lgtm.py\<close>, a client of the internal HTTP API of LGTM: the executor
  \<open>LGTMSite._resilient_request\<close> that retries a request on the SSL failure, the
  normalizer \<open>LGTMDataFilters\<close> that groups raw project records by organization, and
  the methods of \<open>LGTMSite\<close> that fetch the projects, post to the service and rebuild
  protoprojects. A function that can raise returns \<open>py_error + 'a\<close>; a method that
  talks to the service or prints takes the world and returns it.
\<close>

section \<open>Values and exceptions\<close>

text \<open>
  The client handles parsed JSON: the body of a response, the raw project records in it and
  the form fields of a request. A JSON object is an association list read with
  \<open>map_of\<close>, as a \<open>dict\<close> is read by key. Numbers are never inspected by
  the code.
\<close>

datatype json =
    JNull
  | JBool bool
  | JNum int
  | JStr string
  | JArr "json list"
  | JObj "(string \<times> json) list"

text \<open>
  The exceptions that the code raises or lets through. \<open>LGTMRequestException\<close> holds
  its message and its cause (\<open>raise ... from e\<close>); \<open>KeyError\<close> holds the missing
  key, or the message of the explicit \<open>raise KeyError(...)\<close> in \<open>org_to_ids\<close>;
  \<open>ValueError\<close> is what \<open>r.json()\<close> raises on a body that is not JSON;
  \<open>OtherException\<close> stands for any other class a request may raise.
\<close>

datatype py_error =
    SSLError string
  | LGTMRequestException string "py_error option"
  | ValueError
  | KeyError json
  | IndexError
  | TypeError
  | AttributeError
  | OtherException string

definition and_then :: "'e + 'a \<Rightarrow> ('a \<Rightarrow> 'e + 'b) \<Rightarrow> 'e + 'b" where
  "and_then m f = (case m of Inl e \<Rightarrow> Inl e | Inr x \<Rightarrow> f x)"

subsection \<open>The operations of Python the code applies to parsed JSON\<close>

fun starts_with :: "string \<Rightarrow> string \<Rightarrow> bool" where
  "starts_with [] s = True"
| "starts_with (p # ps) [] = False"
| "starts_with (p # ps) (c # cs) = (p = c \<and> starts_with ps cs)"

text \<open>\<open>sub in s\<close> on two strings.\<close>

fun is_substring :: "string \<Rightarrow> string \<Rightarrow> bool" where
  "is_substring sub [] = (sub = [])"
| "is_substring sub (c # cs) = (starts_with sub (c # cs) \<or> is_substring sub cs)"

text \<open>\<open>s.split(sep)\<close> for a separator of one character.\<close>

fun str_split :: "char \<Rightarrow> string \<Rightarrow> string list" where
  "str_split sep [] = [[]]"
| "str_split sep (c # cs) =
     (if c = sep then [] # str_split sep cs
      else (case str_split sep cs of
              [] \<Rightarrow> [[c]]
            | w # ws \<Rightarrow> (c # w) # ws))"

text \<open>\<open>xs[i]\<close> on a list, for \<open>i \<ge> 0\<close>.\<close>

definition nth_item :: "'a list \<Rightarrow> nat \<Rightarrow> py_error + 'a" where
  "nth_item xs i = (if i < length xs then Inr (xs ! i) else Inl IndexError)"

text \<open>\<open>k in v\<close> for a string \<open>k\<close>: a key of a dict, an element of a list, a substring of a string.\<close>

fun contains :: "string \<Rightarrow> json \<Rightarrow> py_error + bool" where
  "contains k (JObj kvs) = Inr (map_of kvs k \<noteq> None)"
| "contains k (JArr vs) = Inr (JStr k \<in> set vs)"
| "contains k (JStr s) = Inr (is_substring k s)"
| "contains k JNull = Inl TypeError"
| "contains k (JBool b) = Inl TypeError"
| "contains k (JNum n) = Inl TypeError"

text \<open>\<open>v[k]\<close> for a string \<open>k\<close>.\<close>

fun getitem :: "json \<Rightarrow> string \<Rightarrow> py_error + json" where
  "getitem (JObj kvs) k = (case map_of kvs k of None \<Rightarrow> Inl (KeyError (JStr k)) | Some v \<Rightarrow> Inr v)"
| "getitem JNull k = Inl TypeError"
| "getitem (JBool b) k = Inl TypeError"
| "getitem (JNum n) k = Inl TypeError"
| "getitem (JStr s) k = Inl TypeError"
| "getitem (JArr vs) k = Inl TypeError"

text \<open>\<open>v[i]\<close> for an index \<open>i \<ge> 0\<close>; the keys of a parsed JSON object are strings.\<close>

fun getitem_index :: "json \<Rightarrow> nat \<Rightarrow> py_error + json" where
  "getitem_index (JArr vs) i = nth_item vs i"
| "getitem_index (JStr s) i = (if i < length s then Inr (JStr [s ! i]) else Inl IndexError)"
| "getitem_index (JObj kvs) i = Inl (KeyError (JNum (int i)))"
| "getitem_index JNull i = Inl TypeError"
| "getitem_index (JBool b) i = Inl TypeError"
| "getitem_index (JNum n) i = Inl TypeError"

text \<open>\<open>v.split(sep)\<close>: only a string has the method.\<close>

fun split_method :: "json \<Rightarrow> char \<Rightarrow> py_error + string list" where
  "split_method (JStr s) sep = Inr (str_split sep s)"
| "split_method JNull sep = Inl AttributeError"
| "split_method (JBool b) sep = Inl AttributeError"
| "split_method (JNum n) sep = Inl AttributeError"
| "split_method (JArr vs) sep = Inl AttributeError"
| "split_method (JObj kvs) sep = Inl AttributeError"

text \<open>\<open>for x in v\<close>: the elements of a list, the keys of a dict, the characters of a string.\<close>

fun iterate :: "json \<Rightarrow> py_error + json list" where
  "iterate (JArr vs) = Inr vs"
| "iterate (JObj kvs) = Inr (map (\<lambda>kv. JStr (fst kv)) kvs)"
| "iterate (JStr s) = Inr (map (\<lambda>c. JStr [c]) s)"
| "iterate JNull = Inl TypeError"
| "iterate (JBool b) = Inl TypeError"
| "iterate (JNum n) = Inl TypeError"

text \<open>
  \<open>str(v)\<close>. On a string it is the string. What Python prints for the other values
  (\<open>repr\<close> of the elements of a list or dict) is a parameter \<open>str\<close> of the model:
  every theorem holds for each such function.
\<close>

definition py_str :: "(json \<Rightarrow> string) \<Rightarrow> json \<Rightarrow> string" where
  "py_str str v = (case v of JStr s \<Rightarrow> s | _ \<Rightarrow> str v)"

text \<open>\<open>sep.join(xs)\<close>.\<close>

fun join :: "string \<Rightarrow> string list \<Rightarrow> string" where
  "join sep [] = []"
| "join sep [x] = x"
| "join sep (x # y # ys) = x @ sep @ join sep (y # ys)"

text \<open>\<open>d[k] = v\<close> on a dict that keeps insertion order, and \<open>{**a, **b}\<close>.\<close>

fun dict_set :: "('k \<times> 'v) list \<Rightarrow> 'k \<Rightarrow> 'v \<Rightarrow> ('k \<times> 'v) list" where
  "dict_set [] k v = [(k, v)]"
| "dict_set ((k', v') # d) k v = (if k' = k then (k', v) # d else (k', v') # dict_set d k v)"

fun dict_merge :: "('k \<times> 'v) list \<Rightarrow> ('k \<times> 'v) list \<Rightarrow> ('k \<times> 'v) list" where
  "dict_merge a [] = a"
| "dict_merge a ((k, v) # b) = dict_merge (dict_set a k v) b"

section \<open>The response normalizer: \<open>LGTMDataFilters\<close>\<close>

record SimpleProject =
  display_name :: json
  key :: json
  is_protoproject :: bool

type_synonym grouping = "(string \<times> SimpleProject list) list"

definition apostrophe :: string where
  "apostrophe = [CHR 0x27]"

text \<open>
  The exception of line 268:
  \<open>KeyError('\'realProject\' nor \'protoproject\' in %s' % str(project))\<close>.
\<close>

definition unrecognized_shape :: "(json \<Rightarrow> string) \<Rightarrow> json \<Rightarrow> py_error" where
  "unrecognized_shape str project =
     KeyError (JStr (apostrophe @ ''realProject'' @ apostrophe @ '' nor '' @
       apostrophe @ ''protoproject'' @ apostrophe @ '' in '' @ py_str str project))"

text \<open>
  Lines 248 to 268 of \<open>org_to_ids\<close>: the organization and the project of one record,
  \<open>None\<close> for a record the loop skips with \<open>continue\<close>.
\<close>

definition project_fields :: "(json \<Rightarrow> string) \<Rightarrow> json \<Rightarrow> py_error + (string \<times> SimpleProject) option" where
  "project_fields str project =
     and_then (contains ''protoproject'' project) (\<lambda>is_proto.
       if is_proto then
         and_then (getitem project ''protoproject'') (\<lambda>the_project.
         and_then (getitem the_project ''cloneUrl'') (\<lambda>clone_url.
         and_then (contains ''https://github.com/'' clone_url) (\<lambda>is_github.
           if \<not> is_github then Inr None
           else
             and_then (getitem the_project ''displayName'') (\<lambda>display_name.
             and_then (split_method display_name CHR ''/'') (\<lambda>parts.
             and_then (nth_item parts 0) (\<lambda>org.
             and_then (getitem the_project ''key'') (\<lambda>key.
               Inr (Some (org,
                 \<lparr>display_name = display_name, key = key, is_protoproject = True\<rparr>)))))))))
       else
         and_then (contains ''realProject'' project) (\<lambda>is_real.
           if is_real then
             and_then (getitem project ''realProject'') (\<lambda>real_project.
             and_then (getitem_index real_project 0) (\<lambda>the_project.
             and_then (getitem the_project ''repoProvider'') (\<lambda>repo_provider.
               if repo_provider \<noteq> JStr ''github_apps'' then Inr None
               else
                 and_then (getitem the_project ''slug'') (\<lambda>slug.
                 and_then (nth_item (str_split CHR ''/'' (py_str str slug)) 1) (\<lambda>org.
                 and_then (getitem the_project ''displayName'') (\<lambda>display_name.
                 and_then (getitem the_project ''key'') (\<lambda>key.
                   Inr (Some (org,
                     \<lparr>display_name = display_name, key = key, is_protoproject = False\<rparr>)))))))))
           else
             Inl (unrecognized_shape str project)))"

text \<open>
  Lines 270 to 280: the list of the organization, made on first encounter at the end of the
  dict, and the project appended to it.
\<close>

definition append_project :: "string \<Rightarrow> SimpleProject \<Rightarrow> grouping \<Rightarrow> grouping" where
  "append_project org p org_to_ids =
     (if org \<in> set (map fst org_to_ids)
      then map (\<lambda>(k, ids_list). if k = org then (k, ids_list @ [p]) else (k, ids_list)) org_to_ids
      else org_to_ids @ [(org, [p])])"

fun org_to_ids_loop :: "(json \<Rightarrow> string) \<Rightarrow> json list \<Rightarrow> grouping \<Rightarrow> py_error + grouping" where
  "org_to_ids_loop str [] org_to_ids = Inr org_to_ids"
| "org_to_ids_loop str (project # projects) org_to_ids =
     (case project_fields str project of
        Inl e \<Rightarrow> Inl e
      | Inr None \<Rightarrow> org_to_ids_loop str projects org_to_ids
      | Inr (Some (org, p)) \<Rightarrow> org_to_ids_loop str projects (append_project org p org_to_ids))"

definition org_to_ids :: "(json \<Rightarrow> string) \<Rightarrow> json \<Rightarrow> py_error + grouping" where
  "org_to_ids str projects =
     (case iterate projects of
        Inl e \<Rightarrow> Inl e
      | Inr records \<Rightarrow> org_to_ids_loop str records [])"

subsection \<open>The normalizer as the specification words it\<close>

text \<open>
  The two shapes of a raw project record: a \<open>protoproject\<close> member that is an object
  with a clone URL, a display name and a key, or (without such a member) a
  \<open>realProject\<close> member that is a list whose first element is an object with a slug, a
  display name, a key and a repo-provider tag; each of these a string. \<open>shape_of\<close> is
  \<open>None\<close> for a record of neither shape.
\<close>

datatype shape =
    Protoproject string string string
  | RealProject string string string string

definition string_member :: "(string \<times> json) list \<Rightarrow> string \<Rightarrow> string option" where
  "string_member kvs k = (case map_of kvs k of Some (JStr s) \<Rightarrow> Some s | _ \<Rightarrow> None)"

definition protoproject_shape :: "(string \<times> json) list \<Rightarrow> shape option" where
  "protoproject_shape p =
     (case string_member p ''cloneUrl'' of None \<Rightarrow> None | Some clone_url \<Rightarrow>
     (case string_member p ''displayName'' of None \<Rightarrow> None | Some name \<Rightarrow>
     (case string_member p ''key'' of None \<Rightarrow> None | Some k \<Rightarrow>
        Some (Protoproject clone_url name k))))"

definition realProject_shape :: "(string \<times> json) list \<Rightarrow> shape option" where
  "realProject_shape p =
     (case string_member p ''slug'' of None \<Rightarrow> None | Some slug \<Rightarrow>
     (case string_member p ''displayName'' of None \<Rightarrow> None | Some name \<Rightarrow>
     (case string_member p ''key'' of None \<Rightarrow> None | Some k \<Rightarrow>
     (case string_member p ''repoProvider'' of None \<Rightarrow> None | Some provider \<Rightarrow>
        Some (RealProject slug name k provider)))))"

fun shape_of :: "json \<Rightarrow> shape option" where
  "shape_of (JObj kvs) =
     (case map_of kvs ''protoproject'' of
        Some (JObj p) \<Rightarrow> protoproject_shape p
      | Some other \<Rightarrow> None
      | None \<Rightarrow>
          (case map_of kvs ''realProject'' of
             Some (JArr (JObj p # others)) \<Rightarrow> realProject_shape p
           | other \<Rightarrow> None))"
| "shape_of other = None"

text \<open>
  The segment of index \<open>i\<close> of a string split on \<open>/\<close>, when there is one; which
  records are kept; the organization of a record; and its normalized project.
\<close>

definition segment :: "nat \<Rightarrow> string \<Rightarrow> string option" where
  "segment i s =
     (let segments = str_split CHR ''/'' s
      in if i < length segments then Some (segments ! i) else None)"

fun kept :: "shape \<Rightarrow> bool" where
  "kept (Protoproject clone_url name k) = is_substring ''https://github.com/'' clone_url"
| "kept (RealProject slug name k provider) = (provider = ''github_apps'')"

fun organization :: "shape \<Rightarrow> string option" where
  "organization (Protoproject clone_url name k) = segment 0 name"
| "organization (RealProject slug name k provider) = segment 1 slug"

fun normalized :: "shape \<Rightarrow> SimpleProject" where
  "normalized (Protoproject clone_url name k) =
     \<lparr>display_name = JStr name, key = JStr k, is_protoproject = True\<rparr>"
| "normalized (RealProject slug name k provider) =
     \<lparr>display_name = JStr name, key = JStr k, is_protoproject = False\<rparr>"

text \<open>
  The kept records with their organizations, in input order, and their grouping: the
  organizations in order of first appearance, each with its projects in input order, every
  occurrence kept.
\<close>

definition entry :: "json \<Rightarrow> (string \<times> SimpleProject) list" where
  "entry r =
     (case shape_of r of
        None \<Rightarrow> []
      | Some sh \<Rightarrow>
          if kept sh then (case organization sh of None \<Rightarrow> [] | Some org \<Rightarrow> [(org, normalized sh)])
          else [])"

definition entries :: "json list \<Rightarrow> (string \<times> SimpleProject) list" where
  "entries records = concat (map entry records)"

fun first_occurrences :: "'a list \<Rightarrow> 'a list" where
  "first_occurrences [] = []"
| "first_occurrences (x # xs) = x # removeAll x (first_occurrences xs)"

definition group_by_org :: "(string \<times> SimpleProject) list \<Rightarrow> grouping" where
  "group_by_org es =
     map (\<lambda>org. (org, map snd (filter (\<lambda>e. fst e = org) es))) (first_occurrences (map fst es))"

text \<open>
  A record of a recognized shape, and one that moreover has an organization when it is kept
  (its slug has a segment of index 1).
\<close>

definition recognized :: "json \<Rightarrow> bool" where
  "recognized r = (shape_of r \<noteq> None)"

definition well_shaped :: "json \<Rightarrow> bool" where
  "well_shaped r =
     (case shape_of r of
        None \<Rightarrow> False
      | Some sh \<Rightarrow> \<not> kept sh \<or> organization sh \<noteq> None)"

subsection \<open>The world the program runs in\<close>

text \<open>
  What the program prints, sends and sleeps is kept, in order, in the trace of the world it
  runs in; the state of the remote service is the other part of the world.
\<close>

datatype http_verb = GET | POST

record request =
  verb :: http_verb
  url :: string
  form :: "(string \<times> json) list"
  cookies :: "(string \<times> string) list"
  headers :: "(string \<times> string) list"

text \<open>
  A response object, as far as the client reads it: \<open>r.text\<close>, and \<open>r.json()\<close>, which
  is \<open>None\<close> when the body is not JSON and the call raises \<open>ValueError\<close>.
\<close>

record response =
  body_text :: string
  json_body :: "json option"

text \<open>
  \<open>Printed s\<close> is \<open>print(s)\<close>; \<open>Printed_project s p\<close> is
  \<open>print(s % p)\<close> for a \<open>SimpleProject\<close> \<open>p\<close>; \<open>Sent r\<close> is one call of
  \<open>requests.get\<close> or \<open>requests.post\<close>; \<open>Slept n\<close> is \<open>time.sleep(n)\<close>.
\<close>

datatype event =
    Printed string
  | Printed_project string SimpleProject
  | Sent request
  | Slept int

record 'w world =
  remote :: 'w
  trace :: "event list"

definition emit :: "event \<Rightarrow> 'w world \<Rightarrow> 'w world" where
  "emit e s = s\<lparr>trace := trace s @ [e]\<rparr>"

text \<open>
  \<open>LGTMDataFilters.extract_project_under_org\<close>, which prints a notice when the
  organization is absent, and \<open>SimpleProject.make_post_data\<close>.
\<close>

definition extract_project_under_org ::
    "string \<Rightarrow> grouping \<Rightarrow> 'w world \<Rightarrow> SimpleProject list \<times> 'w world" where
  "extract_project_under_org org projects_sorted s =
     (case map_of projects_sorted org of
        None \<Rightarrow> ([], emit (Printed (''org '' @ org @ '' not found in projects list'')) s)
      | Some projects \<Rightarrow> (projects, s))"

definition make_post_data :: "SimpleProject \<Rightarrow> (string \<times> json) list" where
  "make_post_data self =
     (let data_dict_key = (if is_protoproject self then ''protoproject_key'' else ''project_key'')
      in [(data_dict_key, key self)])"

section \<open>The resilient request executor\<close>

text \<open>
  A request thunk runs in a state and leaves a state: two calls of it need not give the same
  outcome. \<open>retry_count\<close> is a Python \<open>int\<close>.
\<close>

function resilient_request ::
    "('s \<Rightarrow> (py_error + 'r) \<times> 's) \<Rightarrow> int \<Rightarrow> 's \<Rightarrow> (py_error + 'r) \<times> 's" where
  "resilient_request request_method retry_count s =
     (case request_method s of
        (Inr r, s') \<Rightarrow> (Inr r, s')
      | (Inl (SSLError m), s') \<Rightarrow>
          if retry_count < 4
          then resilient_request request_method (retry_count + 1) s'
          else (Inl (LGTMRequestException ''SSL Error'' (Some (SSLError m))), s')
      | (Inl e, s') \<Rightarrow> (Inl e, s'))"
  by pat_completeness auto
termination
  by (relation "measure (\<lambda>(request_method, retry_count, s). nat (4 - retry_count))") auto

text \<open>
  To speak of the attempts of a thunk: \<open>counted f\<close> is \<open>f\<close> with a counter of its
  calls beside its state, \<open>attempts\<close> reads the counter after the executor has run,
  \<open>state_after f k s\<close> is the state after \<open>k\<close> calls from \<open>s\<close>, and
  \<open>outcome f k s\<close> is what call number \<open>k + 1\<close> returns or raises.
\<close>

definition counted :: "('s \<Rightarrow> 'a \<times> 's) \<Rightarrow> nat \<times> 's \<Rightarrow> 'a \<times> (nat \<times> 's)" where
  "counted f = (\<lambda>(n, s). case f s of (r, s') \<Rightarrow> (r, (Suc n, s')))"

definition attempts :: "('s \<Rightarrow> (py_error + 'r) \<times> 's) \<Rightarrow> int \<Rightarrow> 's \<Rightarrow> nat" where
  "attempts f retry_count s = fst (snd (resilient_request (counted f) retry_count (0, s)))"

fun state_after :: "('s \<Rightarrow> 'a \<times> 's) \<Rightarrow> nat \<Rightarrow> 's \<Rightarrow> 's" where
  "state_after f 0 s = s"
| "state_after f (Suc k) s = state_after f k (snd (f s))"

definition outcome :: "('s \<Rightarrow> 'a \<times> 's) \<Rightarrow> nat \<Rightarrow> 's \<Rightarrow> 'a" where
  "outcome f k s = fst (f (state_after f k s))"

text \<open>\<open>isinstance(e, SSLError)\<close>, and an outcome that raises such an exception.\<close>

fun isinstance_SSLError :: "py_error \<Rightarrow> bool" where
  "isinstance_SSLError (SSLError m) = True"
| "isinstance_SSLError e = False"

fun raises_SSLError :: "py_error + 'r \<Rightarrow> bool" where
  "raises_SSLError (Inl e) = isinstance_SSLError e"
| "raises_SSLError (Inr r) = False"

section \<open>The session client: \<open>LGTMSite\<close>\<close>

record LGTMSite =
  nonce :: string
  long_session :: string
  short_session :: string
  api_version :: string

definition site_cookies :: "LGTMSite \<Rightarrow> (string \<times> string) list" where
  "site_cookies self =
     [(''lgtm_long_session'', long_session self), (''lgtm_short_session'', short_session self)]"

definition site_headers :: "LGTMSite \<Rightarrow> (string \<times> string) list" where
  "site_headers self = [(''LGTM-Nonce'', nonce self)]"

text \<open>
  \<open>requests.get\<close> and \<open>requests.post\<close> against the remote service. The service
  is a parameter \<open>requests\<close>: from a request and its state, an exception or a response, and
  its next state.
\<close>

type_synonym 'w service = "request \<Rightarrow> 'w \<Rightarrow> (py_error + response) \<times> 'w"

definition http :: "'w service \<Rightarrow> request \<Rightarrow> 'w world \<Rightarrow> (py_error + response) \<times> 'w world" where
  "http requests req s =
     (case requests req (remote s) of
        (result, w') \<Rightarrow> (result, s\<lparr>remote := w', trace := trace s @ [Sent req]\<rparr>))"

definition make_lgtm_get ::
    "'w service \<Rightarrow> LGTMSite \<Rightarrow> string \<Rightarrow> 'w world \<Rightarrow> (py_error + json) \<times> 'w world" where
  "make_lgtm_get requests self url' s =
     (case resilient_request
             (http requests \<lparr>verb = GET, url = url', form = [], cookies = site_cookies self,
                headers = site_headers self\<rparr>) 0 s of
        (Inl e, s') \<Rightarrow> (Inl e, s')
      | (Inr r, s') \<Rightarrow>
          (case json_body r of
             None \<Rightarrow> (Inl ValueError, s')
           | Some data \<Rightarrow> (Inr data, s')))"

definition get_my_projects ::
    "'w service \<Rightarrow> (json \<Rightarrow> string) \<Rightarrow> LGTMSite \<Rightarrow> 'w world \<Rightarrow> (py_error + json) \<times> 'w world" where
  "get_my_projects requests str self s =
     (case make_lgtm_get requests self
             (''https://lgtm.com/internal_api/v0.2/getMyProjects?apiVersion='' @ api_version self) s of
        (Inl e, s') \<Rightarrow> (Inl e, s')
      | (Inr data, s') \<Rightarrow>
          (case getitem data ''status'' of
             Inl e \<Rightarrow> (Inl e, s')
           | Inr status \<Rightarrow>
               if status = JStr ''success'' then (getitem data ''data'', s')
               else (Inl (LGTMRequestException
                       (''LGTM GET request failed with response: '' @ py_str str data) None), s')))"

text \<open>
  \<open>_make_lgtm_post\<close>; its parameter \<open>retry_count\<close> is never read. The two
  \<open>print\<close> calls are in the trace.
\<close>

definition make_lgtm_post ::
    "'w service \<Rightarrow> (json \<Rightarrow> string) \<Rightarrow> LGTMSite \<Rightarrow> string \<Rightarrow> (string \<times> json) list \<Rightarrow> 'w world
       \<Rightarrow> (py_error + json) \<times> 'w world" where
  "make_lgtm_post requests str self url' data s =
     (let api_data = [(''apiVersion'', JStr (api_version self))];
          full_data = dict_merge api_data data;
          s1 = emit (Printed (py_str str (JObj data))) s
      in case resilient_request
                (http requests \<lparr>verb = POST, url = url', form = full_data,
                   cookies = site_cookies self, headers = site_headers self\<rparr>) 0 s1 of
           (Inl e, s2) \<Rightarrow> (Inl e, s2)
         | (Inr r, s2) \<Rightarrow>
             (case json_body r of
                None \<Rightarrow>
                  (Inl (LGTMRequestException
                     (''Failed to parse JSON. Response was: '' @ body_text r) (Some ValueError)), s2)
              | Some data_returned \<Rightarrow>
                  (let s3 = emit (Printed (py_str str data_returned)) s2
                   in case getitem data_returned ''status'' of
                        Inl e \<Rightarrow> (Inl e, s3)
                      | Inr status \<Rightarrow>
                          if status = JStr ''success'' then
                            (case contains ''data'' data_returned of
                               Inl e \<Rightarrow> (Inl e, s3)
                             | Inr True \<Rightarrow> (getitem data_returned ''data'', s3)
                             | Inr False \<Rightarrow> (Inr (JObj []), s3))
                          else (Inl (LGTMRequestException
                                  (''LGTM POST request failed with response: '' @
                                     py_str str data_returned) None), s3))))"

definition load_into_project_list ::
    "'w service \<Rightarrow> (json \<Rightarrow> string) \<Rightarrow> LGTMSite \<Rightarrow> int \<Rightarrow> json list \<Rightarrow> 'w world
       \<Rightarrow> (py_error + unit) \<times> 'w world" where
  "load_into_project_list requests str self into_project lgtm_project_ids s =
     (let url' = ''https://lgtm.com/internal_api/v0.2/updateProjectSelection'';
          list_serialized =
            join '', '' (map (\<lambda>elem. [CHR 0x22] @ py_str str elem @ [CHR 0x22]) lgtm_project_ids);
          data = [(''projectSelectionId'', JNum into_project),
                  (''addedProjects'', JStr (''['' @ list_serialized @ '']'')),
                  (''removedProjects'', JStr ''[]'')]
      in case make_lgtm_post requests str self url' data s of
           (Inl e, s') \<Rightarrow> (Inl e, s')
         | (Inr r, s') \<Rightarrow> (Inr (), s'))"

definition force_rebuild_project ::
    "'w service \<Rightarrow> (json \<Rightarrow> string) \<Rightarrow> LGTMSite \<Rightarrow> SimpleProject \<Rightarrow> 'w world
       \<Rightarrow> (py_error + unit) \<times> 'w world" where
  "force_rebuild_project requests str self simple_project s =
     (let url' = ''https://lgtm.com/internal_api/v0.2/rebuildProtoproject'';
          data = dict_set (make_post_data simple_project) ''config'' (JStr [])
      in case make_lgtm_post requests str self url' data s of
           (Inl (LGTMRequestException msg cause), s') \<Rightarrow>
             (Inr (), emit (Printed_project
                (''Failed rebuilding project. This may be because it is already being built. `%s`'')
                simple_project) s')
         | (Inl e, s') \<Rightarrow> (Inl e, s')
         | (Inr r, s') \<Rightarrow> (Inr (), s'))"

text \<open>The two loops of \<open>force_rebuild_all_proto_projects\<close>, the inner one first.\<close>

fun rebuild_projects ::
    "'w service \<Rightarrow> (json \<Rightarrow> string) \<Rightarrow> LGTMSite \<Rightarrow> SimpleProject list \<Rightarrow> 'w world
       \<Rightarrow> (py_error + unit) \<times> 'w world" where
  "rebuild_projects requests str self [] s = (Inr (), s)"
| "rebuild_projects requests str self (project # projects) s =
     (if \<not> is_protoproject project then rebuild_projects requests str self projects s
      else (case force_rebuild_project requests str self project (emit (Slept 1) s) of
              (Inl e, s') \<Rightarrow> (Inl e, s')
            | (Inr u, s') \<Rightarrow> rebuild_projects requests str self projects s'))"

fun rebuild_orgs ::
    "'w service \<Rightarrow> (json \<Rightarrow> string) \<Rightarrow> LGTMSite \<Rightarrow> grouping \<Rightarrow> 'w world
       \<Rightarrow> (py_error + unit) \<times> 'w world" where
  "rebuild_orgs requests str self [] s = (Inr (), s)"
| "rebuild_orgs requests str self ((org, projects) # orgs) s =
     (case rebuild_projects requests str self projects s of
        (Inl e, s') \<Rightarrow> (Inl e, s')
      | (Inr u, s') \<Rightarrow> rebuild_orgs requests str self orgs s')"

definition force_rebuild_all_proto_projects ::
    "'w service \<Rightarrow> (json \<Rightarrow> string) \<Rightarrow> LGTMSite \<Rightarrow> 'w world \<Rightarrow> (py_error + unit) \<times> 'w world" where
  "force_rebuild_all_proto_projects requests str self s =
     (case get_my_projects requests str self s of
        (Inl e, s') \<Rightarrow> (Inl e, s')
      | (Inr projects, s') \<Rightarrow>
          (case org_to_ids str projects of
             Inl e \<Rightarrow> (Inl e, s')
           | Inr org_to_projects \<Rightarrow> rebuild_orgs requests str self org_to_projects s'))"

definition add_org_to_project_list_by_list_name ::
    "LGTMSite \<Rightarrow> string \<Rightarrow> string \<Rightarrow> 'w world \<Rightarrow> (py_error + unit) \<times> 'w world" where
  "add_org_to_project_list_by_list_name self org project_name s = (Inr (), s)"

subsection \<open>What the client sends\<close>

text \<open>
  The requests in a trace, in the order they were sent; the request that
  \<open>_make_lgtm_get\<close> and \<open>_make_lgtm_post\<close> build; the URL of
  \<open>get_my_projects\<close>.
\<close>

fun sent :: "event list \<Rightarrow> request list" where
  "sent [] = []"
| "sent (Sent r # es) = r # sent es"
| "sent (e # es) = sent es"

definition get_request :: "LGTMSite \<Rightarrow> string \<Rightarrow> request" where
  "get_request self url' =
     \<lparr>verb = GET, url = url', form = [], cookies = site_cookies self, headers = site_headers self\<rparr>"

definition get_my_projects_url :: "LGTMSite \<Rightarrow> string" where
  "get_my_projects_url self =
     ''https://lgtm.com/internal_api/v0.2/getMyProjects?apiVersion='' @ api_version self"

definition post_request :: "LGTMSite \<Rightarrow> string \<Rightarrow> (string \<times> json) list \<Rightarrow> request" where
  "post_request self url' data =
     \<lparr>verb = POST, url = url', form = dict_merge [(''apiVersion'', JStr (api_version self))] data,
      cookies = site_cookies self, headers = site_headers self\<rparr>"

text \<open>
  The form value of a list as the specification words it: the elements in double quotes,
  separated by a comma and a space, in square brackets.
\<close>

definition double_quoted :: "string \<Rightarrow> string" where
  "double_quoted s = CHR 0x22 # s @ [CHR 0x22]"

fun comma_space_separated :: "string list \<Rightarrow> string" where
  "comma_space_separated [] = []"
| "comma_space_separated (x # xs) = x @ concat (map (\<lambda>y. '', '' @ y) xs)"

definition bracketed_list :: "string list \<Rightarrow> string" where
  "bracketed_list ids = ''['' @ comma_space_separated (map double_quoted ids) @ '']''"

text \<open>
  The request that rebuilds a protoproject, and those of the protoprojects of a list. A
  service \<open>answers\<close> when each request gets the SSL failure or a response whose body is
  not JSON or is a JSON object with a \<open>status\<close> member.
\<close>

definition rebuild_request :: "LGTMSite \<Rightarrow> SimpleProject \<Rightarrow> request" where
  "rebuild_request self p =
     \<lparr>verb = POST, url = ''https://lgtm.com/internal_api/v0.2/rebuildProtoproject'',
      form = [(''apiVersion'', JStr (api_version self)), (''protoproject_key'', key p),
              (''config'', JStr [])],
      cookies = site_cookies self, headers = site_headers self\<rparr>"

fun has_status :: "json \<Rightarrow> bool" where
  "has_status (JObj kvs) = (map_of kvs ''status'' \<noteq> None)"
| "has_status other = False"

definition answers :: "'w service \<Rightarrow> bool" where
  "answers requests =
     (\<forall>req w. case fst (requests req w) of
                 Inl e \<Rightarrow> isinstance_SSLError e
               | Inr r \<Rightarrow> (case json_body r of None \<Rightarrow> True | Some body \<Rightarrow> has_status body))"

definition rebuild_requests :: "LGTMSite \<Rightarrow> SimpleProject list \<Rightarrow> request set" where
  "rebuild_requests self ps = rebuild_request self ` {p \<in> set ps. is_protoproject p}"

section \<open>Properties of the resilient request executor\<close>

declare resilient_request.simps [simp del]

lemma resilient_request_returns:
  "f s = (Inr r, s') \<Longrightarrow> resilient_request f rc s = (Inr r, s')"
  by (subst resilient_request.simps) simp

lemma resilient_request_retries:
  "f s = (Inl (SSLError m), s') \<Longrightarrow> rc < 4 \<Longrightarrow>
     resilient_request f rc s = resilient_request f (rc + 1) s'"
  by (subst resilient_request.simps) simp

lemma resilient_request_gives_up:
  "f s = (Inl (SSLError m), s') \<Longrightarrow> \<not> rc < 4 \<Longrightarrow>
     resilient_request f rc s = (Inl (LGTMRequestException ''SSL Error'' (Some (SSLError m))), s')"
  by (subst resilient_request.simps) simp

lemma resilient_request_propagates:
  "f s = (Inl e, s') \<Longrightarrow> \<not> isinstance_SSLError e \<Longrightarrow>
     resilient_request f rc s = ((Inl e :: py_error + 'r), s')"
  by (subst resilient_request.simps) (cases e; simp)

lemma isinstance_SSLError_iff: "isinstance_SSLError e \<longleftrightarrow> (\<exists>m. e = SSLError m)"
  by (cases e) auto

lemma raises_SSLError_iff: "raises_SSLError x \<longleftrightarrow> (\<exists>m. x = Inl (SSLError m))"
  by (cases x) (auto simp: isinstance_SSLError_iff)

lemma outcome_0: "outcome f 0 s = fst (f s)"
  by (simp add: outcome_def)

lemma outcome_Suc: "outcome f (Suc k) s = outcome f k (snd (f s))"
  by (simp add: outcome_def)

lemma state_after_Suc_end: "state_after f (Suc k) s = snd (f (state_after f k s))"
  by (induction k arbitrary: s) simp_all

text \<open>The first attempt that does not raise the SSL failure decides the result.\<close>

lemma resilient_request_first_other:
  "int k + rc \<le> 4 \<Longrightarrow> \<forall>j<k. raises_SSLError (outcome f j s) \<Longrightarrow> \<not> raises_SSLError (outcome f k s) \<Longrightarrow>
     resilient_request f rc s = (outcome f k s, state_after f (Suc k) s)"
proof (induction k arbitrary: rc s)
  case 0
  obtain x s' where fs: "f s = (x, s')" by (cases "f s")
  with 0 have nx: "\<not> raises_SSLError x" by (simp add: outcome_0)
  show ?case
  proof (cases x)
    case (Inl e)
    with fs nx show ?thesis by (simp add: resilient_request_propagates outcome_0)
  next
    case (Inr r)
    with fs show ?thesis by (simp add: resilient_request_returns outcome_0)
  qed
next
  case (Suc k)
  obtain x s' where fs: "f s = (x, s')" by (cases "f s")
  from Suc.prems(2) have "raises_SSLError (outcome f 0 s)" by blast
  with fs obtain m where x: "x = Inl (SSLError m)" by (auto simp: outcome_0 raises_SSLError_iff)
  from Suc.prems(1) have rc: "rc < 4" by simp
  have step: "resilient_request f rc s = resilient_request f (rc + 1) s'"
    using fs x rc by (simp add: resilient_request_retries)
  have "resilient_request f (rc + 1) s' = (outcome f k s', state_after f (Suc k) s')"
  proof (rule Suc.IH)
    show "int k + (rc + 1) \<le> 4" using Suc.prems(1) by simp
    show "\<forall>j<k. raises_SSLError (outcome f j s')"
    proof (intro allI impI)
      fix j assume "j < k"
      then have "raises_SSLError (outcome f (Suc j) s)" using Suc.prems(2) by simp
      then show "raises_SSLError (outcome f j s')" using fs by (simp add: outcome_Suc)
    qed
    show "\<not> raises_SSLError (outcome f k s')"
      using Suc.prems(3) fs by (simp add: outcome_Suc)
  qed
  with step fs show ?case by (simp add: outcome_Suc)
qed

text \<open>When every attempt raises the SSL failure, the last one is the cause of the error raised.\<close>

lemma resilient_request_all_SSLError:
  "\<forall>j\<le>k. raises_SSLError (outcome f j s) \<Longrightarrow>
     \<exists>m. outcome f k s = Inl (SSLError m) \<and>
       resilient_request f (4 - int k) s =
         (Inl (LGTMRequestException ''SSL Error'' (Some (SSLError m))), state_after f (Suc k) s)"
proof (induction k arbitrary: s)
  case 0
  obtain x s' where fs: "f s = (x, s')" by (cases "f s")
  with 0 obtain m where x: "x = Inl (SSLError m)" by (auto simp: outcome_0 raises_SSLError_iff)
  with fs show ?case by (simp add: resilient_request_gives_up outcome_0)
next
  case (Suc k)
  obtain x s' where fs: "f s = (x, s')" by (cases "f s")
  from Suc.prems have "raises_SSLError (outcome f 0 s)" by blast
  with fs obtain m where x: "x = Inl (SSLError m)" by (auto simp: outcome_0 raises_SSLError_iff)
  have step: "resilient_request f (4 - int (Suc k)) s = resilient_request f (4 - int k) s'"
    using resilient_request_retries[of f s m s' "4 - int (Suc k)"] fs x by (simp add: algebra_simps)
  have "\<forall>j\<le>k. raises_SSLError (outcome f j s')"
  proof (intro allI impI)
    fix j assume "j \<le> k"
    then have "raises_SSLError (outcome f (Suc j) s)" using Suc.prems by simp
    then show "raises_SSLError (outcome f j s')" using fs by (simp add: outcome_Suc)
  qed
  from Suc.IH[OF this] step fs show ?case by (simp add: outcome_Suc)
qed

lemma state_after_counted:
  "state_after (counted f) k (n, s) = (n + k, state_after f k s)"
  by (induction k arbitrary: n s) (simp_all add: counted_def split: prod.splits)

lemma outcome_counted: "outcome (counted f) k (n, s) = outcome f k s"
  by (simp add: outcome_def state_after_counted) (simp add: counted_def split: prod.splits)

lemma attempts_first_other:
  "int k + rc \<le> 4 \<Longrightarrow> \<forall>j<k. raises_SSLError (outcome f j s) \<Longrightarrow> \<not> raises_SSLError (outcome f k s) \<Longrightarrow>
     attempts f rc s = Suc k"
  using resilient_request_first_other[of k rc "counted f" "(0, s)"]
  by (simp add: attempts_def outcome_counted state_after_counted del: state_after.simps)

lemma attempts_all_SSLError:
  "\<forall>j\<le>k. raises_SSLError (outcome f j s) \<Longrightarrow> attempts f (4 - int k) s = Suc k"
  using resilient_request_all_SSLError[of k "counted f" "(0, s)"]
  by (auto simp add: attempts_def outcome_counted state_after_counted simp del: state_after.simps)

lemma attempts_at_most:
  "attempts f 0 s \<le> 5"
proof (cases "\<forall>j\<le>4. raises_SSLError (outcome f j s)")
  case True
  from attempts_all_SSLError[OF this] show ?thesis by simp
next
  case False
  then have ex: "\<exists>j. \<not> raises_SSLError (outcome f j s)" by blast
  define k where "k = (LEAST j. \<not> raises_SSLError (outcome f j s))"
  have k: "\<not> raises_SSLError (outcome f k s)" unfolding k_def using ex by (rule LeastI_ex)
  have before: "\<forall>j<k. raises_SSLError (outcome f j s)"
    unfolding k_def using not_less_Least by blast
  from False obtain j where "j \<le> 4" "\<not> raises_SSLError (outcome f j s)" by blast
  then have "k \<le> 4" unfolding k_def using Least_le[of "\<lambda>j. \<not> raises_SSLError (outcome f j s)" j] by simp
  with attempts_first_other[of k 0 f s] before k show ?thesis by simp
qed

text \<open>
  Claim C1. Called with \<open>retry_count = 0\<close>, the executor calls the thunk at most 5
  times. When each of the first 5 calls raises the SSL failure, it makes exactly 5 calls and
  raises \<open>LGTMRequestException\<close> with the failure of the fifth call as its cause. When
  the calls before call \<open>k + 1\<close> (\<open>k < 5\<close>) raise the SSL failure and that call returns
  \<open>r\<close>, it returns \<open>r\<close> after exactly \<open>k + 1\<close> calls.
\<close>

theorem resilient_request_retry_cap:
  "attempts f 0 s \<le> 5 \<and>
   ((\<forall>k<5. raises_SSLError (outcome f k s)) \<longrightarrow>
      attempts f 0 s = 5 \<and>
      (\<exists>m. outcome f 4 s = Inl (SSLError m) \<and>
         fst (resilient_request f 0 s) = Inl (LGTMRequestException ''SSL Error'' (Some (SSLError m))))) \<and>
   (\<forall>k r. k < 5 \<and> (\<forall>j<k. raises_SSLError (outcome f j s)) \<and> outcome f k s = Inr r \<longrightarrow>
      fst (resilient_request f 0 s) = Inr r \<and> attempts f 0 s = Suc k)"
proof (intro conjI impI allI)
  show "attempts f 0 s \<le> 5" by (rule attempts_at_most)
next
  assume a: "\<forall>k<5. raises_SSLError (outcome f k s)"
  then have a': "\<forall>j\<le>4. raises_SSLError (outcome f j s)" by simp
  from attempts_all_SSLError[OF a'] show "attempts f 0 s = 5" by simp
  from resilient_request_all_SSLError[OF a']
  show "\<exists>m. outcome f 4 s = Inl (SSLError m) \<and>
         fst (resilient_request f 0 s) = Inl (LGTMRequestException ''SSL Error'' (Some (SSLError m)))"
    by auto
next
  fix k r
  assume h: "k < 5 \<and> (\<forall>j<k. raises_SSLError (outcome f j s)) \<and> outcome f k s = Inr r"
  then have 1: "int k + 0 \<le> 4" and 2: "\<forall>j<k. raises_SSLError (outcome f j s)"
    and 3: "\<not> raises_SSLError (outcome f k s)" by simp_all
  from resilient_request_first_other[OF 1 2 3] h show "fst (resilient_request f 0 s) = Inr r" by simp
  from attempts_first_other[OF 1 2 3] show "attempts f 0 s = Suc k" .
qed

theorem resilient_request_retry_cap_witness:
  "attempts (\<lambda>n::nat. (Inl (SSLError ''handshake'') :: py_error + nat, Suc n)) 0 0 = 5 \<and>
   fst (resilient_request (\<lambda>n::nat. (Inl (SSLError ''handshake'') :: py_error + nat, Suc n)) 0 0) =
     Inl (LGTMRequestException ''SSL Error'' (Some (SSLError ''handshake''))) \<and>
   fst (resilient_request (\<lambda>n::nat. (if n < 2 then Inl (SSLError ''handshake'') else Inr n, Suc n)) 0 0) =
     Inr 2 \<and>
   attempts (\<lambda>n::nat. (if n < 2 then Inl (SSLError ''handshake'') else Inr n, Suc n)) 0 0 = 3"
proof -
  let ?always = "\<lambda>n::nat. (Inl (SSLError ''handshake'') :: py_error + nat, Suc n)"
  let ?third = "\<lambda>n::nat. (if n < 2 then Inl (SSLError ''handshake'') else Inr n :: py_error + nat, Suc n)"
  have sa: "\<And>k. state_after ?third k 0 = k"
  proof -
    have "\<And>k n. state_after ?third k n = n + k"
      subgoal for k n by (induction k arbitrary: n) simp_all
      done
    then show "\<And>k. state_after ?third k 0 = k" by simp
  qed
  have h1: "\<forall>k<5. raises_SSLError (outcome ?always k 0)"
    by (simp add: outcome_def)
  have h2: "(2::nat) < 5 \<and> (\<forall>j<2. raises_SSLError (outcome ?third j 0)) \<and> outcome ?third 2 0 = Inr 2"
    by (simp add: outcome_def sa)
  from resilient_request_retry_cap[of ?always 0] h1
  have c1: "attempts ?always 0 0 = 5 \<and>
      (\<exists>m. outcome ?always 4 0 = Inl (SSLError m) \<and>
         fst (resilient_request ?always 0 0) = Inl (LGTMRequestException ''SSL Error'' (Some (SSLError m))))"
    by blast
  then have c1': "fst (resilient_request ?always 0 0) =
     Inl (LGTMRequestException ''SSL Error'' (Some (SSLError ''handshake'')))"
    by (auto simp: outcome_def)
  from resilient_request_retry_cap[of ?third 0] h2
  have c2: "fst (resilient_request ?third 0 0) = Inr 2 \<and> attempts ?third 0 0 = Suc 2"
    by blast
  from c1 c1' c2 show ?thesis by simp
qed

text \<open>
  Claim C5. An exception of a class other than \<open>SSLError\<close> that the thunk raises is
  the exception the executor raises, with the state the thunk left and after that one call:
  for each \<open>retry_count\<close>, and, from \<open>retry_count = 0\<close>, after any number of calls
  that raised the SSL failure.
\<close>

theorem resilient_request_other_exception:
  "(f s = (Inl e, s') \<and> \<not> isinstance_SSLError e \<longrightarrow>
      resilient_request f retry_count s = ((Inl e :: py_error + 'r), s') \<and> attempts f retry_count s = 1) \<and>
   (k < 5 \<and> (\<forall>j<k. raises_SSLError (outcome f j s)) \<and> outcome f k s = Inl e \<and>
      \<not> isinstance_SSLError e \<longrightarrow>
      fst (resilient_request f 0 s) = Inl e \<and> attempts f 0 s = Suc k)"
proof (intro conjI impI)
  assume h: "f s = (Inl e, s') \<and> \<not> isinstance_SSLError e"
  then show "resilient_request f retry_count s = (Inl e, s')"
    by (simp add: resilient_request_propagates)
  from h have "counted f (0, s) = (Inl e, (Suc 0, s'))" by (simp add: counted_def)
  from resilient_request_propagates[of "counted f" "(0, s)" e "(Suc 0, s')" retry_count] this h
  show "attempts f retry_count s = 1"
    by (simp add: attempts_def)
next
  assume h: "k < 5 \<and> (\<forall>j<k. raises_SSLError (outcome f j s)) \<and> outcome f k s = Inl e \<and>
      \<not> isinstance_SSLError e"
  then have 1: "int k + 0 \<le> 4" and 2: "\<forall>j<k. raises_SSLError (outcome f j s)"
    and 3: "\<not> raises_SSLError (outcome f k s)" by simp_all
  from resilient_request_first_other[OF 1 2 3] h show "fst (resilient_request f 0 s) = Inl e" by simp
  from attempts_first_other[OF 1 2 3] show "attempts f 0 s = Suc k" .
qed

theorem resilient_request_other_exception_witness:
  "resilient_request (\<lambda>n::nat. (Inl (OtherException ''ConnectionError'') :: py_error + nat, Suc n)) 3 0 =
     (Inl (OtherException ''ConnectionError''), 1) \<and>
   attempts (\<lambda>n::nat. (Inl (OtherException ''ConnectionError'') :: py_error + nat, Suc n)) 3 0 = 1 \<and>
   fst (resilient_request
          (\<lambda>n::nat. (if n < 2 then Inl (SSLError ''handshake'') else Inl TypeError :: py_error + nat,
             Suc n)) 0 0) = Inl TypeError \<and>
   attempts (\<lambda>n::nat. (if n < 2 then Inl (SSLError ''handshake'') else Inl TypeError :: py_error + nat,
               Suc n)) 0 0 = 3"
proof -
  let ?refused = "\<lambda>n::nat. (Inl (OtherException ''ConnectionError'') :: py_error + nat, Suc n)"
  let ?third = "\<lambda>n::nat. (if n < 2 then Inl (SSLError ''handshake'') else Inl TypeError :: py_error + nat,
    Suc n)"
  have sa: "state_after ?third k n = n + k" for k n
    by (induction k arbitrary: n) simp_all
  have h1: "?refused 0 = (Inl (OtherException ''ConnectionError''), Suc 0) \<and>
      \<not> isinstance_SSLError (OtherException ''ConnectionError'')"
    by simp
  have h2: "(2::nat) < 5 \<and> (\<forall>j<2. raises_SSLError (outcome ?third j 0)) \<and>
      outcome ?third 2 0 = Inl TypeError \<and> \<not> isinstance_SSLError TypeError"
    by (simp add: outcome_def sa)
  from resilient_request_other_exception[of ?refused 0 "OtherException ''ConnectionError''" "Suc 0" 3] h1
  have c1: "resilient_request ?refused 3 0 = (Inl (OtherException ''ConnectionError''), Suc 0) \<and>
      attempts ?refused 3 0 = 1"
    by blast
  from resilient_request_other_exception[of ?third 0 TypeError _ _ 2] h2
  have c2: "fst (resilient_request ?third 0 0) = Inl TypeError \<and> attempts ?third 0 0 = Suc 2"
    by blast
  from c1 c2 show ?thesis by simp
qed

section \<open>Properties of the response normalizer\<close>

text \<open>
  The string operations are the ones of Python: \<open>is_substring\<close> holds of the strings
  with the other inside, and \<open>str_split\<close> gives the segments without the separator
  that \<open>join\<close> puts back together.
\<close>

lemma starts_with_iff: "starts_with sub s \<longleftrightarrow> (\<exists>post. s = sub @ post)"
  by (induction sub s rule: starts_with.induct) auto

lemma is_substring_iff: "is_substring sub s \<longleftrightarrow> (\<exists>pre post. s = pre @ sub @ post)"
proof (induction s)
  case Nil
  show ?case by auto
next
  case (Cons c cs)
  show ?case
  proof
    assume "is_substring sub (c # cs)"
    then consider "starts_with sub (c # cs)" | "is_substring sub cs" by auto
    then show "\<exists>pre post. c # cs = pre @ sub @ post"
    proof cases
      case 1
      then obtain post where "c # cs = sub @ post" by (auto simp: starts_with_iff)
      then have "c # cs = [] @ sub @ post" by simp
      then show ?thesis by blast
    next
      case 2
      with Cons obtain pre post where "cs = pre @ sub @ post" by blast
      then have "c # cs = (c # pre) @ sub @ post" by simp
      then show ?thesis by blast
    qed
  next
    assume "\<exists>pre post. c # cs = pre @ sub @ post"
    then obtain pre post where e: "c # cs = pre @ sub @ post" by blast
    show "is_substring sub (c # cs)"
    proof (cases pre)
      case Nil
      with e have "starts_with sub (c # cs)" by (auto simp: starts_with_iff)
      then show ?thesis by simp
    next
      case (Cons d pre')
      with e have "cs = pre' @ sub @ post" by simp
      with Cons.IH have "is_substring sub cs" by blast
      then show ?thesis by simp
    qed
  qed
qed

lemma str_split_not_Nil [simp]: "str_split sep s \<noteq> []"
  by (induction s) (auto split: list.splits)

lemma str_split_no_separator: "w \<in> set (str_split sep s) \<Longrightarrow> sep \<notin> set w"
  by (induction s arbitrary: w) (auto split: list.splits if_splits)

lemma join_str_split: "join [sep] (str_split sep s) = s"
proof (induction s)
  case Nil
  show ?case by simp
next
  case (Cons c cs)
  obtain w ws where w: "str_split sep cs = w # ws"
    by (cases "str_split sep cs") simp_all
  with Cons show ?case
    by (cases ws) auto
qed

lemma org_to_ids_loop_append:
  "org_to_ids_loop str (xs @ ys) acc =
     (case org_to_ids_loop str xs acc of
        Inl e \<Rightarrow> Inl e
      | Inr g \<Rightarrow> org_to_ids_loop str ys g)"
  by (induction xs arbitrary: acc) (auto split: sum.splits option.splits)

lemma org_to_ids_JArr: "org_to_ids str (JArr records) = org_to_ids_loop str records []"
  by (simp add: org_to_ids_def)

lemma project_fields_neither:
  "map_of kvs ''protoproject'' = None \<Longrightarrow> map_of kvs ''realProject'' = None \<Longrightarrow>
     project_fields str (JObj kvs) = Inl (unrecognized_shape str (JObj kvs))"
  by (simp add: project_fields_def and_then_def)

text \<open>
  Claim C3. A record that is a dict with neither a \<open>protoproject\<close> nor a
  \<open>realProject\<close> key makes the whole normalization fail, whatever follows it: no
  grouping is returned, and when the records before it normalize without an exception, the
  exception raised is the \<open>KeyError\<close> of line 268 for that record.
\<close>

theorem org_to_ids_unrecognized_shape:
  "map_of kvs ''protoproject'' = None \<and> map_of kvs ''realProject'' = None \<longrightarrow>
     org_to_ids str (JArr (before @ JObj kvs # rest)) =
       (case org_to_ids str (JArr before) of
          Inl e \<Rightarrow> Inl e
        | Inr grouped \<Rightarrow> Inl (unrecognized_shape str (JObj kvs))) \<and>
     (\<exists>e. org_to_ids str (JArr (before @ JObj kvs # rest)) = Inl e)"
  by (auto simp add: org_to_ids_JArr org_to_ids_loop_append project_fields_neither split: sum.splits)

theorem org_to_ids_unrecognized_shape_witness:
  "org_to_ids (\<lambda>v. [])
     (JArr [JObj [(''protoproject'', JObj [(''cloneUrl'', JStr ''https://github.com/orgA/x''),
                    (''displayName'', JStr ''orgA/x''), (''key'', JStr ''p1'')])],
            JObj [(''project'', JNull)],
            JObj []]) =
   Inl (unrecognized_shape (\<lambda>v. []) (JObj [(''project'', JNull)]))"
proof -
  let ?r = "JObj [(''protoproject'', JObj [(''cloneUrl'', JStr ''https://github.com/orgA/x''),
                    (''displayName'', JStr ''orgA/x''), (''key'', JStr ''p1'')])]"
  have h: "map_of [(''project'', JNull)] ''protoproject'' = None \<and>
      map_of [(''project'', JNull)] ''realProject'' = None"
    by simp
  have b: "org_to_ids (\<lambda>v. []) (JArr [?r]) = Inr [(''orgA'', [\<lparr>display_name = JStr ''orgA/x'', key = JStr ''p1'', is_protoproject = True\<rparr>])]"
    by (simp add: org_to_ids_def project_fields_def and_then_def nth_item_def append_project_def)
  from org_to_ids_unrecognized_shape[of "[(''project'', JNull)]" "\<lambda>v. []" "[?r]" "[JObj []]"] h b
  show ?thesis by simp
qed

lemma project_fields_other_host:
  "map_of kvs ''protoproject'' = Some (JObj p) \<Longrightarrow> map_of p ''cloneUrl'' = Some (JStr clone_url) \<Longrightarrow>
     \<not> is_substring ''https://github.com/'' clone_url \<Longrightarrow>
     project_fields str (JObj kvs) = Inr None"
  by (simp add: project_fields_def and_then_def)

lemma project_fields_other_provider:
  "map_of kvs ''protoproject'' = None \<Longrightarrow> map_of kvs ''realProject'' = Some (JArr (JObj p # others)) \<Longrightarrow>
     map_of p ''repoProvider'' = Some tag \<Longrightarrow> tag \<noteq> JStr ''github_apps'' \<Longrightarrow>
     project_fields str (JObj kvs) = Inr None"
  by (simp add: project_fields_def and_then_def nth_item_def)

text \<open>
  Claim C4. A record whose \<open>protoproject\<close> has a clone URL without the substring
  \<open>https://github.com/\<close>, and a record without a \<open>protoproject\<close> key whose first
  \<open>realProject\<close> element has a repo-provider tag other than \<open>github_apps\<close>, is
  skipped: the normalization gives what it gives without the record, and the record alone
  gives the empty grouping and no exception.
\<close>

theorem org_to_ids_skips_other_providers:
  "(map_of kvs ''protoproject'' = Some (JObj p) \<and> map_of p ''cloneUrl'' = Some (JStr clone_url) \<and>
      \<not> is_substring ''https://github.com/'' clone_url) \<or>
   (map_of kvs ''protoproject'' = None \<and> map_of kvs ''realProject'' = Some (JArr (JObj p # others)) \<and>
      map_of p ''repoProvider'' = Some tag \<and> tag \<noteq> JStr ''github_apps'') \<longrightarrow>
     org_to_ids str (JArr (before @ JObj kvs # rest)) = org_to_ids str (JArr (before @ rest)) \<and>
     org_to_ids str (JArr [JObj kvs]) = Inr []"
proof (intro impI)
  assume "(map_of kvs ''protoproject'' = Some (JObj p) \<and> map_of p ''cloneUrl'' = Some (JStr clone_url) \<and>
      \<not> is_substring ''https://github.com/'' clone_url) \<or>
   (map_of kvs ''protoproject'' = None \<and> map_of kvs ''realProject'' = Some (JArr (JObj p # others)) \<and>
      map_of p ''repoProvider'' = Some tag \<and> tag \<noteq> JStr ''github_apps'')"
  then have skip: "project_fields str (JObj kvs) = Inr None"
    using project_fields_other_host project_fields_other_provider by blast
  then show "org_to_ids str (JArr (before @ JObj kvs # rest)) = org_to_ids str (JArr (before @ rest)) \<and>
     org_to_ids str (JArr [JObj kvs]) = Inr []"
    by (simp add: org_to_ids_JArr org_to_ids_loop_append split: sum.splits)
qed

theorem org_to_ids_skips_other_providers_witness:
  "org_to_ids (\<lambda>v. [])
     (JArr [JObj [(''protoproject'', JObj [(''cloneUrl'', JStr ''https://github.com/orgA/x''),
                    (''displayName'', JStr ''orgA/x''), (''key'', JStr ''p1'')])],
            JObj [(''protoproject'', JObj [(''cloneUrl'', JStr ''https://bitbucket.org/orgC/z'')])]]) =
   org_to_ids (\<lambda>v. [])
     (JArr [JObj [(''protoproject'', JObj [(''cloneUrl'', JStr ''https://github.com/orgA/x''),
                    (''displayName'', JStr ''orgA/x''), (''key'', JStr ''p1'')])]]) \<and>
   org_to_ids (\<lambda>v. [])
     (JArr [JObj [(''realProject'', JArr [JObj [(''repoProvider'', JStr ''bitbucket'')]])]]) = Inr []"
proof -
  let ?r = "JObj [(''protoproject'', JObj [(''cloneUrl'', JStr ''https://github.com/orgA/x''),
                    (''displayName'', JStr ''orgA/x''), (''key'', JStr ''p1'')])]"
  have h1: "map_of [(''protoproject'', JObj [(''cloneUrl'', JStr ''https://bitbucket.org/orgC/z'')])]
        ''protoproject'' = Some (JObj [(''cloneUrl'', JStr ''https://bitbucket.org/orgC/z'')]) \<and>
      map_of [(''cloneUrl'', JStr ''https://bitbucket.org/orgC/z'')] ''cloneUrl'' =
        Some (JStr ''https://bitbucket.org/orgC/z'') \<and>
      \<not> is_substring ''https://github.com/'' ''https://bitbucket.org/orgC/z''"
    by simp
  have h2: "map_of [(''realProject'', JArr [JObj [(''repoProvider'', JStr ''bitbucket'')]])]
        ''protoproject'' = None \<and>
      map_of [(''realProject'', JArr [JObj [(''repoProvider'', JStr ''bitbucket'')]])]
        ''realProject'' = Some (JArr (JObj [(''repoProvider'', JStr ''bitbucket'')] # [])) \<and>
      map_of [(''repoProvider'', JStr ''bitbucket'')] ''repoProvider'' = Some (JStr ''bitbucket'') \<and>
      JStr ''bitbucket'' \<noteq> JStr ''github_apps''"
    by simp
  from org_to_ids_skips_other_providers[of
      "[(''protoproject'', JObj [(''cloneUrl'', JStr ''https://bitbucket.org/orgC/z'')])]"
      "[(''cloneUrl'', JStr ''https://bitbucket.org/orgC/z'')]" "''https://bitbucket.org/orgC/z''"
      _ _ "\<lambda>v. []" "[?r]" "[]"] h1
  have c1: "org_to_ids (\<lambda>v. [])
      (JArr ([?r] @ JObj [(''protoproject'', JObj [(''cloneUrl'', JStr ''https://bitbucket.org/orgC/z'')])] # [])) =
      org_to_ids (\<lambda>v. []) (JArr ([?r] @ []))"
    by blast
  from org_to_ids_skips_other_providers[of
      "[(''realProject'', JArr [JObj [(''repoProvider'', JStr ''bitbucket'')]])]"
      "[(''repoProvider'', JStr ''bitbucket'')]" _ "[]" "JStr ''bitbucket''" "\<lambda>v. []"] h2
  have c2: "org_to_ids (\<lambda>v. [])
     (JArr [JObj [(''realProject'', JArr [JObj [(''repoProvider'', JStr ''bitbucket'')]])]]) = Inr []"
    by blast
  from c1 c2 show ?thesis by simp
qed

lemma set_first_occurrences [simp]: "set (first_occurrences xs) = set xs"
  by (induction xs) auto

lemma first_occurrences_snoc:
  "first_occurrences (xs @ [x]) =
     (if x \<in> set xs then first_occurrences xs else first_occurrences xs @ [x])"
  by (induction xs) auto

lemma keys_group_by_org [simp]: "map fst (group_by_org es) = first_occurrences (map fst es)"
  by (simp add: group_by_org_def comp_def)

lemma append_project_group_by_org:
  "append_project org p (group_by_org es) = group_by_org (es @ [(org, p)])"
proof (cases "org \<in> set (map fst es)")
  case True
  then have "org \<in> fst ` set es" by simp
  then show ?thesis
    by (auto simp add: append_project_def group_by_org_def first_occurrences_snoc)
next
  case False
  then have "org \<notin> fst ` set es" by simp
  then have "filter (\<lambda>e. fst e = org) es = []"
    by (auto simp: filter_empty_conv)
  with False show ?thesis
    by (auto simp add: append_project_def group_by_org_def first_occurrences_snoc)
qed

text \<open>
  The grouping has each organization once, holds under it the projects of that organization
  in input order, and holds every project of the input.
\<close>

lemma distinct_first_occurrences [simp]: "distinct (first_occurrences xs)"
  by (induction xs) (auto simp: distinct_removeAll)

lemma group_by_org_keys_distinct: "distinct (map fst (group_by_org es))"
  by simp

lemma map_of_group_by_org:
  "map_of (group_by_org es) org =
     (if org \<in> set (map fst es) then Some (map snd (filter (\<lambda>e. fst e = org) es)) else None)"
  by (auto simp add: group_by_org_def map_of_map_restrict restrict_map_def map_of_eq_None_iff image_iff)

lemma length_append_project:
  "distinct (map fst g) \<Longrightarrow>
     length (concat (map snd (append_project org p g))) = Suc (length (concat (map snd g)))"
proof (induction g)
  case Nil
  show ?case by (simp add: append_project_def)
next
  case (Cons kv g)
  obtain k v where kv: "kv = (k, v)" by (cases kv)
  from Cons.prems kv have d: "distinct (map fst g)" and k: "k \<notin> set (map fst g)" by simp_all
  show ?case
  proof (cases "k = org")
    case True
    with k have "map (\<lambda>(k, ids_list). if k = org then (k, ids_list @ [p]) else (k, ids_list)) g = g"
      by (induction g) auto
    with True kv show ?thesis by (simp add: append_project_def)
  next
    case False
    with Cons.IH[OF d] kv show ?thesis
      by (auto simp add: append_project_def split: if_splits)
  qed
qed

lemma group_by_org_keeps_every_project:
  "length (concat (map snd (group_by_org es))) = length es"
proof (induction es rule: rev_induct)
  case Nil
  show ?case by (simp add: group_by_org_def)
next
  case (snoc e es)
  obtain org p where e: "e = (org, p)" by (cases e)
  have "distinct (map fst (group_by_org es))" by simp
  from length_append_project[OF this, of org p] snoc e show ?case
    by (simp add: append_project_group_by_org)
qed

lemma string_member_Some: "string_member kvs k = Some s \<Longrightarrow> map_of kvs k = Some (JStr s)"
  by (auto simp: string_member_def split: option.splits json.splits)

lemma segment_nth_item:
  "nth_item (str_split CHR ''/'' s) i = (case segment i s of None \<Rightarrow> Inl IndexError | Some x \<Rightarrow> Inr x)"
  by (simp add: nth_item_def segment_def)

lemma nth_item_first [simp]: "nth_item (x # xs) 0 = Inr x"
  by (simp add: nth_item_def)

lemma project_fields_shape:
  assumes "shape_of r = Some sh"
  shows "project_fields str r =
     (if kept sh then
        (case organization sh of
           None \<Rightarrow> Inl IndexError
         | Some org \<Rightarrow> Inr (Some (org, normalized sh)))
      else Inr None)"
proof (cases r)
  case (JObj kvs)
  show ?thesis
  proof (cases "map_of kvs ''protoproject''")
    case None
    with assms JObj obtain p others where
      rp: "map_of kvs ''realProject'' = Some (JArr (JObj p # others))" and sh: "realProject_shape p = Some sh"
      by (auto split: option.splits json.splits list.splits)
    from sh obtain slug name k provider where
      m: "string_member p ''slug'' = Some slug" "string_member p ''displayName'' = Some name"
         "string_member p ''key'' = Some k" "string_member p ''repoProvider'' = Some provider"
      and s: "sh = RealProject slug name k provider"
      by (auto simp: realProject_shape_def split: option.splits)
    note mm = m[THEN string_member_Some]
    show ?thesis
      using JObj None rp mm s
      by (simp add: project_fields_def and_then_def segment_nth_item py_str_def
               split: option.splits)
  next
    case (Some v)
    with assms JObj obtain p where v: "v = JObj p" and sh: "protoproject_shape p = Some sh"
      by (auto split: json.splits)
    from sh obtain clone_url name k where
      m: "string_member p ''cloneUrl'' = Some clone_url" "string_member p ''displayName'' = Some name"
         "string_member p ''key'' = Some k"
      and s: "sh = Protoproject clone_url name k"
      by (auto simp: protoproject_shape_def split: option.splits)
    note mm = m[THEN string_member_Some]
    show ?thesis
      using JObj Some v mm s
      by (simp add: project_fields_def and_then_def segment_nth_item split: option.splits)
  qed
qed (use assms in simp_all)

lemma project_fields_well_shaped:
  assumes "well_shaped r"
  shows "project_fields str r = Inr (case entry r of [] \<Rightarrow> None | e # es \<Rightarrow> Some e) \<and> length (entry r) \<le> 1"
proof -
  from assms obtain sh where sh: "shape_of r = Some sh" and org: "\<not> kept sh \<or> organization sh \<noteq> None"
    by (auto simp: well_shaped_def split: option.splits)
  from org show ?thesis
    by (auto simp add: project_fields_shape[OF sh] entry_def sh)
qed

lemma org_to_ids_loop_well_shaped:
  "\<forall>r\<in>set records. well_shaped r \<Longrightarrow>
     org_to_ids_loop str records (group_by_org es) = Inr (group_by_org (es @ entries records))"
proof (induction records arbitrary: es)
  case Nil
  then show ?case by (simp add: entries_def)
next
  case (Cons r records)
  then have r: "well_shaped r" and rest: "\<forall>r\<in>set records. well_shaped r" by simp_all
  note pf = project_fields_well_shaped[OF r, of str]
  show ?case
  proof (cases "entry r")
    case Nil
    with pf Cons.IH[OF rest, of es] show ?thesis by (simp add: entries_def)
  next
    case (Cons e more_entries)
    with pf have single: "entry r = [e]" by simp
    obtain org p where e: "e = (org, p)" by (cases e)
    from pf single e Cons.IH[OF rest, of "es @ [(org, p)]"] show ?thesis
      by (simp add: entries_def append_project_group_by_org)
  qed
qed

text \<open>
  Claim C2, amended. When every record has a recognized shape and every kept
  \<open>realProject\<close> record has a slug with a segment of index 1, \<open>org_to_ids\<close>
  returns the grouping of the kept records: each project with the display name and the key
  of its record and \<open>is_protoproject\<close> true exactly for the protoproject shape, under
  the first segment of its display name (protoproject) or the segment of index 1 of its slug
  (realProject), the organizations in order of first appearance, the projects of each in
  input order, nothing dropped as a duplicate. The scenario of two records of section 8 of
  the specification gives the two organizations stated there.
\<close>

theorem org_to_ids_groups_by_organization:
  "((\<forall>r\<in>set records. well_shaped r) \<longrightarrow>
      org_to_ids str (JArr records) = Inr (group_by_org (entries records))) \<and>
   org_to_ids str
     (JArr [JObj [(''protoproject'', JObj [(''cloneUrl'', JStr ''https://github.com/orgA/x''),
                    (''displayName'', JStr ''orgA/x''), (''key'', JStr ''p1'')])],
            JObj [(''realProject'', JArr [JObj [(''slug'', JStr ''gh/orgB/y''),
                    (''displayName'', JStr ''orgB/y''), (''key'', JStr ''p2''),
                    (''repoProvider'', JStr ''github_apps'')]])]]) =
     Inr [(''orgA'', [\<lparr>display_name = JStr ''orgA/x'', key = JStr ''p1'', is_protoproject = True\<rparr>]),
          (''orgB'', [\<lparr>display_name = JStr ''orgB/y'', key = JStr ''p2'', is_protoproject = False\<rparr>])]"
proof (intro conjI impI)
  assume "\<forall>r\<in>set records. well_shaped r"
  from org_to_ids_loop_well_shaped[OF this, of str "[]"]
  show "org_to_ids str (JArr records) = Inr (group_by_org (entries records))"
    by (simp add: org_to_ids_JArr group_by_org_def)
next
  show "org_to_ids str
     (JArr [JObj [(''protoproject'', JObj [(''cloneUrl'', JStr ''https://github.com/orgA/x''),
                    (''displayName'', JStr ''orgA/x''), (''key'', JStr ''p1'')])],
            JObj [(''realProject'', JArr [JObj [(''slug'', JStr ''gh/orgB/y''),
                    (''displayName'', JStr ''orgB/y''), (''key'', JStr ''p2''),
                    (''repoProvider'', JStr ''github_apps'')]])]]) =
     Inr [(''orgA'', [\<lparr>display_name = JStr ''orgA/x'', key = JStr ''p1'', is_protoproject = True\<rparr>]),
          (''orgB'', [\<lparr>display_name = JStr ''orgB/y'', key = JStr ''p2'', is_protoproject = False\<rparr>])]"
    by (simp add: org_to_ids_def project_fields_def and_then_def nth_item_def append_project_def
          py_str_def)
qed

theorem org_to_ids_groups_by_organization_witness:
  "org_to_ids (\<lambda>v. [])
     (JArr [JObj [(''protoproject'', JObj [(''cloneUrl'', JStr ''https://github.com/orgA/repo1''),
                    (''displayName'', JStr ''orgA/repo1''), (''key'', JStr ''k1'')])],
            JObj [(''realProject'', JArr [JObj [(''slug'', JStr ''g/orgB/y''),
                    (''displayName'', JStr ''orgB/y''), (''key'', JStr ''k2''),
                    (''repoProvider'', JStr ''github_apps'')]])],
            JObj [(''protoproject'', JObj [(''cloneUrl'', JStr ''https://bitbucket.org/orgC/z''),
                    (''displayName'', JStr ''orgC/z''), (''key'', JStr ''k3'')])],
            JObj [(''protoproject'', JObj [(''cloneUrl'', JStr ''https://github.com/orgA/repo2''),
                    (''displayName'', JStr ''orgA/repo2''), (''key'', JStr ''k4'')])],
            JObj [(''protoproject'', JObj [(''cloneUrl'', JStr ''https://github.com/orgA/repo1''),
                    (''displayName'', JStr ''orgA/repo1''), (''key'', JStr ''k1'')])]]) =
   Inr [(''orgA'', [\<lparr>display_name = JStr ''orgA/repo1'', key = JStr ''k1'', is_protoproject = True\<rparr>,
                    \<lparr>display_name = JStr ''orgA/repo2'', key = JStr ''k4'', is_protoproject = True\<rparr>,
                    \<lparr>display_name = JStr ''orgA/repo1'', key = JStr ''k1'', is_protoproject = True\<rparr>]),
        (''orgB'', [\<lparr>display_name = JStr ''orgB/y'', key = JStr ''k2'', is_protoproject = False\<rparr>])]"
proof -
  let ?records = "[JObj [(''protoproject'', JObj [(''cloneUrl'', JStr ''https://github.com/orgA/repo1''),
                    (''displayName'', JStr ''orgA/repo1''), (''key'', JStr ''k1'')])],
            JObj [(''realProject'', JArr [JObj [(''slug'', JStr ''g/orgB/y''),
                    (''displayName'', JStr ''orgB/y''), (''key'', JStr ''k2''),
                    (''repoProvider'', JStr ''github_apps'')]])],
            JObj [(''protoproject'', JObj [(''cloneUrl'', JStr ''https://bitbucket.org/orgC/z''),
                    (''displayName'', JStr ''orgC/z''), (''key'', JStr ''k3'')])],
            JObj [(''protoproject'', JObj [(''cloneUrl'', JStr ''https://github.com/orgA/repo2''),
                    (''displayName'', JStr ''orgA/repo2''), (''key'', JStr ''k4'')])],
            JObj [(''protoproject'', JObj [(''cloneUrl'', JStr ''https://github.com/orgA/repo1''),
                    (''displayName'', JStr ''orgA/repo1''), (''key'', JStr ''k1'')])]]"
  have h: "\<forall>r\<in>set ?records. well_shaped r"
    by (simp add: well_shaped_def protoproject_shape_def realProject_shape_def string_member_def
          segment_def)
  have e: "entries ?records =
      [(''orgA'', \<lparr>display_name = JStr ''orgA/repo1'', key = JStr ''k1'', is_protoproject = True\<rparr>),
       (''orgB'', \<lparr>display_name = JStr ''orgB/y'', key = JStr ''k2'', is_protoproject = False\<rparr>),
       (''orgA'', \<lparr>display_name = JStr ''orgA/repo2'', key = JStr ''k4'', is_protoproject = True\<rparr>),
       (''orgA'', \<lparr>display_name = JStr ''orgA/repo1'', key = JStr ''k1'', is_protoproject = True\<rparr>)]"
    by (simp add: entries_def entry_def protoproject_shape_def realProject_shape_def string_member_def
          segment_def)
  from org_to_ids_groups_by_organization[of ?records "\<lambda>v. []"] h
  have "org_to_ids (\<lambda>v. []) (JArr ?records) = Inr (group_by_org (entries ?records))"
    by blast
  then show ?thesis
    unfolding e by (simp add: group_by_org_def)
qed

text \<open>
  The claim C2 as stated fails: a \<open>realProject\<close> record of the recognized shape whose
  slug has no \<open>/\<close> is kept, and \<open>split('/')[1]\<close> raises \<open>IndexError\<close>.
\<close>

theorem org_to_ids_slug_without_separator:
  "recognized (JObj [(''realProject'', JArr [JObj [(''slug'', JStr ''y''),
                    (''displayName'', JStr ''orgB/y''), (''key'', JStr ''p2''),
                    (''repoProvider'', JStr ''github_apps'')]])]) \<and>
   org_to_ids (\<lambda>v. [])
     (JArr [JObj [(''realProject'', JArr [JObj [(''slug'', JStr ''y''),
                    (''displayName'', JStr ''orgB/y''), (''key'', JStr ''p2''),
                    (''repoProvider'', JStr ''github_apps'')]])]]) = Inl IndexError"
  by (simp add: recognized_def realProject_shape_def string_member_def org_to_ids_def
        project_fields_def and_then_def nth_item_def py_str_def)

section \<open>Properties of the session client\<close>

lemma sent_append [simp]: "sent (xs @ ys) = sent xs @ sent ys"
  by (induction xs rule: sent.induct) simp_all

lemma resilient_request_cases:
  "(\<exists>k<5. (\<forall>j<k. raises_SSLError (outcome f j s)) \<and> \<not> raises_SSLError (outcome f k s) \<and>
       resilient_request f 0 s = (outcome f k s, state_after f (Suc k) s)) \<or>
   (\<exists>m. (\<forall>j<5. raises_SSLError (outcome f j s)) \<and>
       resilient_request f 0 s =
         (Inl (LGTMRequestException ''SSL Error'' (Some (SSLError m))), state_after f (Suc 4) s))"
proof (cases "\<forall>j\<le>4. raises_SSLError (outcome f j s)")
  case True
  from resilient_request_all_SSLError[OF True] obtain m where
    "resilient_request f (4 - int 4) s =
       (Inl (LGTMRequestException ''SSL Error'' (Some (SSLError m))), state_after f (Suc 4) s)"
    by blast
  then have "resilient_request f 0 s =
       (Inl (LGTMRequestException ''SSL Error'' (Some (SSLError m))), state_after f (Suc 4) s)"
    by simp
  moreover from True have "\<forall>j<5. raises_SSLError (outcome f j s)" by simp
  ultimately show ?thesis by blast
next
  case False
  then have ex: "\<exists>j. \<not> raises_SSLError (outcome f j s)" by blast
  define k where "k = (LEAST j. \<not> raises_SSLError (outcome f j s))"
  have k: "\<not> raises_SSLError (outcome f k s)" unfolding k_def using ex by (rule LeastI_ex)
  have before: "\<forall>j<k. raises_SSLError (outcome f j s)"
    unfolding k_def using not_less_Least by blast
  from False obtain j where "j \<le> 4" "\<not> raises_SSLError (outcome f j s)" by blast
  then have k4: "k \<le> 4"
    unfolding k_def using Least_le[of "\<lambda>j. \<not> raises_SSLError (outcome f j s)" j] by simp
  then have "int k + 0 \<le> 4" and k5: "k < 5" by simp_all
  from resilient_request_first_other[OF this(1) before k] k5 before k show ?thesis
    by blast
qed

lemma state_after_http:
  "trace (state_after (http requests req) k s) = trace s @ replicate k (Sent req)"
proof (induction k arbitrary: s)
  case 0
  show ?case by simp
next
  case (Suc k)
  have "trace (snd (http requests req s)) = trace s @ [Sent req]"
    by (simp add: http_def split: prod.splits)
  with Suc[of "snd (http requests req s)"] show ?case
    by (simp add: replicate_append_same)
qed

lemma outcome_http:
  "\<exists>w. outcome (http requests req) k s = fst (requests req w)"
  by (auto simp add: outcome_def http_def split: prod.splits) (metis fst_conv)

lemma sent_replicate [simp]: "sent (replicate k (Sent req)) = replicate k req"
  by (induction k) simp_all

text \<open>What one request through the executor leaves in the trace, and what it returns.\<close>

lemma resilient_http:
  "\<exists>k<5. trace (snd (resilient_request (http requests req) 0 s)) =
            trace s @ replicate (Suc k) (Sent req) \<and>
     ((\<exists>m c. fst (resilient_request (http requests req) 0 s) = Inl (LGTMRequestException m c)) \<or>
      (\<exists>w. fst (resilient_request (http requests req) 0 s) = fst (requests req w) \<and>
           \<not> raises_SSLError (fst (requests req w))))"
proof -
  let ?f = "http requests req"
  from resilient_request_cases[of ?f s] show ?thesis
  proof (elim disjE exE conjE)
    fix k
    assume k: "k < 5" and n: "\<not> raises_SSLError (outcome ?f k s)"
      and r: "resilient_request ?f 0 s = (outcome ?f k s, state_after ?f (Suc k) s)"
    from outcome_http[of requests req k s] obtain w where
      w: "outcome ?f k s = fst (requests req w)" by blast
    from r have "trace (snd (resilient_request ?f 0 s)) = trace s @ replicate (Suc k) (Sent req)"
      by (simp only: snd_conv state_after_http)
    moreover from r w n have "fst (resilient_request ?f 0 s) = fst (requests req w) \<and>
           \<not> raises_SSLError (fst (requests req w))" by simp
    ultimately show ?thesis using k by blast
  next
    fix m
    assume r: "resilient_request ?f 0 s =
         (Inl (LGTMRequestException ''SSL Error'' (Some (SSLError m))), state_after ?f (Suc 4) s)"
    then have "trace (snd (resilient_request ?f 0 s)) = trace s @ replicate (Suc 4) (Sent req)"
      by (simp only: snd_conv state_after_http)
    moreover from r have "\<exists>m c. fst (resilient_request ?f 0 s) = Inl (LGTMRequestException m c)"
      by simp
    moreover have "(4::nat) < 5" by simp
    ultimately show ?thesis by blast
  qed
qed

lemma trace_emit [simp]: "trace (emit e s) = trace s @ [e]"
  by (simp add: emit_def)

lemma make_lgtm_post_sent:
  "\<exists>k<5. sent (trace (snd (make_lgtm_post requests str self url' data s))) =
     sent (trace s) @ replicate (Suc k) (post_request self url' data)"
proof -
  let ?s1 = "emit (Printed (py_str str (JObj data))) s"
  let ?req = "post_request self url' data"
  from resilient_http[of requests ?req ?s1] obtain k where k: "k < 5"
    and tr: "trace (snd (resilient_request (http requests ?req) 0 ?s1)) =
        trace ?s1 @ replicate (Suc k) (Sent ?req)"
    by blast
  obtain y s2 where rr: "resilient_request (http requests ?req) 0 ?s1 = (y, s2)"
    by (cases "resilient_request (http requests ?req) 0 ?s1")
  with tr have "sent (trace s2) = sent (trace s) @ replicate (Suc k) ?req"
    by (simp del: replicate.simps)
  then have "sent (trace (snd (make_lgtm_post requests str self url' data s))) =
     sent (trace s) @ replicate (Suc k) ?req"
    using rr unfolding make_lgtm_post_def Let_def post_request_def[symmetric]
    by (auto simp del: replicate.simps split: sum.splits option.splits bool.splits)
  with k show ?thesis by blast
qed


lemma http_returns:
  "requests req (remote s) = (x, w') \<Longrightarrow>
     http requests req s = (x, s\<lparr>remote := w', trace := trace s @ [Sent req]\<rparr>)"
  by (simp add: http_def)

lemma resilient_http_answered:
  "requests req (remote s) = (Inr r, w') \<Longrightarrow>
     resilient_request (http requests req) retry_count s =
       (Inr r, s\<lparr>remote := w', trace := trace s @ [Sent req]\<rparr>)"
  by (rule resilient_request_returns) (simp add: http_returns)

lemma make_lgtm_get_not_json:
  "requests (get_request self url') (remote s) = (Inr r, w') \<Longrightarrow> json_body r = None \<Longrightarrow>
     make_lgtm_get requests self url' s =
       (Inl ValueError, s\<lparr>remote := w', trace := trace s @ [Sent (get_request self url')]\<rparr>)"
  unfolding make_lgtm_get_def get_request_def[symmetric]
  by (simp add: resilient_http_answered)

lemma get_my_projects_not_json:
  "requests (get_request self (get_my_projects_url self)) (remote s) = (Inr r, w') \<Longrightarrow>
   json_body r = None \<Longrightarrow>
     get_my_projects requests str self s =
       (Inl ValueError,
        s\<lparr>remote := w', trace := trace s @ [Sent (get_request self (get_my_projects_url self))]\<rparr>)"
  unfolding get_my_projects_def get_my_projects_url_def[symmetric]
  by (simp add: make_lgtm_get_not_json)

lemma get_my_projects_success:
  "requests (get_request self (get_my_projects_url self)) (remote s) = (Inr r, w') \<Longrightarrow>
   json_body r = Some (JObj kvs) \<Longrightarrow> map_of kvs ''status'' = Some (JStr ''success'') \<Longrightarrow>
   map_of kvs ''data'' = Some projects \<Longrightarrow>
     get_my_projects requests str self s =
       (Inr projects,
        s\<lparr>remote := w', trace := trace s @ [Sent (get_request self (get_my_projects_url self))]\<rparr>)"
  unfolding get_my_projects_def get_my_projects_url_def[symmetric] make_lgtm_get_def
    get_request_def[symmetric]
  by (simp add: resilient_http_answered)

lemma get_my_projects_not_success:
  "requests (get_request self (get_my_projects_url self)) (remote s) = (Inr r, w') \<Longrightarrow>
   json_body r = Some (JObj kvs) \<Longrightarrow> map_of kvs ''status'' = Some status \<Longrightarrow>
   status \<noteq> JStr ''success'' \<Longrightarrow>
     get_my_projects requests str self s =
       (Inl (LGTMRequestException
          (''LGTM GET request failed with response: '' @ py_str str (JObj kvs)) None),
        s\<lparr>remote := w', trace := trace s @ [Sent (get_request self (get_my_projects_url self))]\<rparr>)"
  unfolding get_my_projects_def get_my_projects_url_def[symmetric] make_lgtm_get_def
    get_request_def[symmetric]
  by (simp add: resilient_http_answered)

lemma make_lgtm_post_not_json:
  "requests (post_request self url' data) (remote s) = (Inr r, w') \<Longrightarrow> json_body r = None \<Longrightarrow>
     make_lgtm_post requests str self url' data s =
       (Inl (LGTMRequestException
          (''Failed to parse JSON. Response was: '' @ body_text r) (Some ValueError)),
        s\<lparr>remote := w',
          trace := trace s @ [Printed (py_str str (JObj data)), Sent (post_request self url' data)]\<rparr>)"
  unfolding make_lgtm_post_def Let_def post_request_def[symmetric]
  by (simp add: resilient_http_answered emit_def)

lemma make_lgtm_post_not_success:
  "requests (post_request self url' data) (remote s) = (Inr r, w') \<Longrightarrow>
   json_body r = Some (JObj kvs) \<Longrightarrow> map_of kvs ''status'' = Some status \<Longrightarrow>
   status \<noteq> JStr ''success'' \<Longrightarrow>
     make_lgtm_post requests str self url' data s =
       (Inl (LGTMRequestException
          (''LGTM POST request failed with response: '' @ py_str str (JObj kvs)) None),
        s\<lparr>remote := w',
          trace := trace s @ [Printed (py_str str (JObj data)), Sent (post_request self url' data),
            Printed (py_str str (JObj kvs))]\<rparr>)"
  unfolding make_lgtm_post_def Let_def post_request_def[symmetric]
  by (simp add: resilient_http_answered emit_def)

text \<open>
  Claim C6. On the POST path a body that is not JSON, and a JSON object whose status is not
  \<open>success\<close>, raise \<open>LGTMRequestException\<close> with the body in the message after one
  request (\<open>make_lgtm_post_not_json\<close>, \<open>make_lgtm_post_not_success\<close>), and so does
  a status that is not \<open>success\<close> on the GET path (\<open>get_my_projects_not_success\<close>).
  On the GET path a body that is not JSON does not: \<open>_make_lgtm_get\<close> calls
  \<open>r.json()\<close> outside any \<open>try\<close>, and \<open>get_my_projects\<close> raises the
  \<open>ValueError\<close> of the parser. Here the service answers every request with an HTML page.
\<close>

theorem get_my_projects_not_json_raises_ValueError:
  "get_my_projects
     (\<lambda>req w. (Inr \<lparr>body_text = ''<html>502 Bad Gateway</html>'', json_body = None\<rparr>, w))
     str self s =
   (Inl ValueError,
    s\<lparr>trace := trace s @
       [Sent \<lparr>verb = GET,
              url = ''https://lgtm.com/internal_api/v0.2/getMyProjects?apiVersion='' @ api_version self,
              form = [], cookies = site_cookies self, headers = site_headers self\<rparr>]\<rparr>)"
  using get_my_projects_not_json[of
      "\<lambda>req w. (Inr \<lparr>body_text = ''<html>502 Bad Gateway</html>'', json_body = None\<rparr>, w)"
      self s "\<lparr>body_text = ''<html>502 Bad Gateway</html>'', json_body = None\<rparr>" "remote s" str]
  by (simp add: get_request_def get_my_projects_url_def)

lemma join_comma_space: "join '', '' xs = comma_space_separated xs"
proof (cases xs)
  case Nil
  then show ?thesis by simp
next
  case (Cons x ys)
  have "join '', '' (y # ys) = y @ concat (map (\<lambda>y. '', '' @ y) ys)" for y
    by (induction ys arbitrary: y) simp_all
  then show ?thesis
    unfolding Cons comma_space_separated.simps .
qed

lemma list_serialized:
  "join '', '' (map (\<lambda>elem. [CHR 0x22] @ py_str str elem @ [CHR 0x22]) (map JStr ids)) =
     comma_space_separated (map double_quoted ids)"
  by (simp add: join_comma_space comp_def py_str_def double_quoted_def[abs_def])

text \<open>
  Claim C7. Every request that \<open>load_into_project_list\<close> sends for a list of
  identifiers (one request, or up to five when the SSL failure is retried) is the POST to
  \<open>updateProjectSelection\<close> whose form has one \<open>addedProjects\<close> field, the
  string of the bracketed list, and the \<open>removedProjects\<close> field \<open>[]\<close>. The
  empty list gives \<open>[]\<close>, and the list of \<open>a\<close> and \<open>b\<close> gives
  \<open>["a", "b"]\<close>.
\<close>

theorem load_into_project_list_form:
  "(\<exists>k<5. sent (trace (snd (load_into_project_list requests str self into_project (map JStr ids) s))) =
      sent (trace s) @
      replicate (Suc k)
        \<lparr>verb = POST, url = ''https://lgtm.com/internal_api/v0.2/updateProjectSelection'',
         form = [(''apiVersion'', JStr (api_version self)),
                 (''projectSelectionId'', JNum into_project),
                 (''addedProjects'', JStr (bracketed_list ids)),
                 (''removedProjects'', JStr ''[]'')],
         cookies = site_cookies self, headers = site_headers self\<rparr>) \<and>
   bracketed_list [] = ''[]'' \<and>
   bracketed_list [''a'', ''b''] = ''['' @ double_quoted ''a'' @ '', '' @ double_quoted ''b'' @ '']''"
proof (intro conjI)
  let ?data = "[(''projectSelectionId'', JNum into_project),
                (''addedProjects'', JStr (bracketed_list ids)),
                (''removedProjects'', JStr ''[]'')]"
  let ?url = "''https://lgtm.com/internal_api/v0.2/updateProjectSelection''"
  have "snd (load_into_project_list requests str self into_project (map JStr ids) s) =
      snd (make_lgtm_post requests str self ?url ?data s)"
    unfolding load_into_project_list_def Let_def list_serialized bracketed_list_def
    by (simp split: prod.splits sum.splits)
  moreover have "post_request self ?url ?data =
        \<lparr>verb = POST, url = ?url,
         form = [(''apiVersion'', JStr (api_version self)),
                 (''projectSelectionId'', JNum into_project),
                 (''addedProjects'', JStr (bracketed_list ids)),
                 (''removedProjects'', JStr ''[]'')],
         cookies = site_cookies self, headers = site_headers self\<rparr>"
    by (simp add: post_request_def)
  ultimately show "\<exists>k<5. sent (trace (snd (load_into_project_list requests str self into_project (map JStr ids) s))) =
      sent (trace s) @
      replicate (Suc k)
        \<lparr>verb = POST, url = ?url,
         form = [(''apiVersion'', JStr (api_version self)),
                 (''projectSelectionId'', JNum into_project),
                 (''addedProjects'', JStr (bracketed_list ids)),
                 (''removedProjects'', JStr ''[]'')],
         cookies = site_cookies self, headers = site_headers self\<rparr>"
    using make_lgtm_post_sent[of requests str self ?url ?data s] by simp
next
  show "bracketed_list [] = ''[]''" by (simp add: bracketed_list_def)
  show "bracketed_list [''a'', ''b''] = ''['' @ double_quoted ''a'' @ '', '' @ double_quoted ''b'' @ '']''"
    by (simp add: bracketed_list_def)
qed

text \<open>
  Claim C9. For an organization that is not a key of the grouping,
  \<open>extract_project_under_org\<close> returns the empty list and prints the notice; for one
  that is a key, it returns the list of the organization and prints nothing. It has no
  exception to raise.
\<close>

theorem extract_project_under_org_absent_or_present:
  "(org \<notin> set (map fst projects_sorted) \<longrightarrow>
      extract_project_under_org org projects_sorted s =
        ([], emit (Printed (''org '' @ org @ '' not found in projects list'')) s)) \<and>
   (distinct (map fst projects_sorted) \<and> (org, projects) \<in> set projects_sorted \<longrightarrow>
      extract_project_under_org org projects_sorted s = (projects, s))"
proof (intro conjI impI)
  assume "org \<notin> set (map fst projects_sorted)"
  then have "map_of projects_sorted org = None"
    by (simp add: map_of_eq_None_iff)
  then show "extract_project_under_org org projects_sorted s =
        ([], emit (Printed (''org '' @ org @ '' not found in projects list'')) s)"
    by (simp add: extract_project_under_org_def)
next
  assume "distinct (map fst projects_sorted) \<and> (org, projects) \<in> set projects_sorted"
  then have "map_of projects_sorted org = Some projects"
    by simp
  then show "extract_project_under_org org projects_sorted s = (projects, s)"
    by (simp add: extract_project_under_org_def)
qed

theorem extract_project_under_org_absent_or_present_witness:
  "extract_project_under_org ''orgC''
     [(''orgA'', [\<lparr>display_name = JStr ''orgA/x'', key = JStr ''p1'', is_protoproject = True\<rparr>])]
     \<lparr>remote = (), trace = []\<rparr> =
     ([], \<lparr>remote = (), trace = [Printed ''org orgC not found in projects list'']\<rparr>) \<and>
   extract_project_under_org ''orgA''
     [(''orgA'', [\<lparr>display_name = JStr ''orgA/x'', key = JStr ''p1'', is_protoproject = True\<rparr>])]
     \<lparr>remote = (), trace = []\<rparr> =
     ([\<lparr>display_name = JStr ''orgA/x'', key = JStr ''p1'', is_protoproject = True\<rparr>],
      \<lparr>remote = (), trace = []\<rparr>)"
proof -
  let ?g = "[(''orgA'', [\<lparr>display_name = JStr ''orgA/x'', key = JStr ''p1'', is_protoproject = True\<rparr>])]"
  let ?s = "\<lparr>remote = (), trace = []\<rparr>"
  have h1: "''orgC'' \<notin> set (map fst ?g)" by simp
  have h2: "distinct (map fst ?g) \<and>
      (''orgA'', [\<lparr>display_name = JStr ''orgA/x'', key = JStr ''p1'', is_protoproject = True\<rparr>]) \<in> set ?g"
    by simp
  from extract_project_under_org_absent_or_present[of "''orgC''" ?g ?s] h1
  have c1: "extract_project_under_org ''orgC'' ?g ?s =
        ([], emit (Printed (''org '' @ ''orgC'' @ '' not found in projects list'')) ?s)"
    by blast
  from extract_project_under_org_absent_or_present[of "''orgA''" ?g ?s
      "[\<lparr>display_name = JStr ''orgA/x'', key = JStr ''p1'', is_protoproject = True\<rparr>]"] h2
  have c2: "extract_project_under_org ''orgA'' ?g ?s =
     ([\<lparr>display_name = JStr ''orgA/x'', key = JStr ''p1'', is_protoproject = True\<rparr>], ?s)"
    by blast
  from c1 c2 show ?thesis by (simp add: emit_def)
qed

text \<open>
  Claim C10. \<open>add_org_to_project_list_by_list_name\<close> is \<open>pass\<close>: it returns
  \<open>None\<close> and leaves the world as it was, with nothing sent and nothing printed.
\<close>

theorem add_org_to_project_list_by_list_name_does_nothing:
  "add_org_to_project_list_by_list_name self org project_name s = (Inr (), s) \<and>
   trace (snd (add_org_to_project_list_by_list_name self org project_name s)) = trace s \<and>
   remote (snd (add_org_to_project_list_by_list_name self org project_name s)) = remote s"
  by (simp add: add_org_to_project_list_by_list_name_def)

lemma rebuild_request_protoproject:
  "is_protoproject p \<Longrightarrow>
     post_request self ''https://lgtm.com/internal_api/v0.2/rebuildProtoproject''
       (dict_set (make_post_data p) ''config'' (JStr [])) = rebuild_request self p"
  by (simp add: post_request_def rebuild_request_def make_post_data_def)

lemma sent_emit_not_Sent:
  "sent (trace (emit (Printed m) s)) = sent (trace s)"
  "sent (trace (emit (Printed_project m p) s)) = sent (trace s)"
  "sent (trace (emit (Slept n) s)) = sent (trace s)"
  by simp_all

lemma force_rebuild_project_sent:
  assumes "is_protoproject p"
  shows "\<exists>k<5. sent (trace (snd (force_rebuild_project requests str self p s))) =
     sent (trace s) @ replicate (Suc k) (rebuild_request self p)"
proof -
  let ?url = "''https://lgtm.com/internal_api/v0.2/rebuildProtoproject''"
  let ?data = "dict_set (make_post_data p) ''config'' (JStr [])"
  from make_lgtm_post_sent[of requests str self ?url ?data s] obtain k where k: "k < 5"
    and tr: "sent (trace (snd (make_lgtm_post requests str self ?url ?data s))) =
      sent (trace s) @ replicate (Suc k) (rebuild_request self p)"
    unfolding rebuild_request_protoproject[OF assms] by blast
  have "sent (trace (snd (force_rebuild_project requests str self p s))) =
      sent (trace (snd (make_lgtm_post requests str self ?url ?data s)))"
    unfolding force_rebuild_project_def Let_def
    by (simp split: prod.splits sum.splits py_error.splits)
  with tr k show ?thesis by auto
qed

lemma make_lgtm_post_answers:
  assumes "answers requests"
  shows "(\<exists>v. fst (make_lgtm_post requests str self url' data s) = Inr v) \<or>
     (\<exists>m c. fst (make_lgtm_post requests str self url' data s) = Inl (LGTMRequestException m c))"
proof -
  let ?s1 = "emit (Printed (py_str str (JObj data))) s"
  let ?req = "post_request self url' data"
  obtain x s2 where rr: "resilient_request (http requests ?req) 0 ?s1 = (x, s2)"
    by (cases "resilient_request (http requests ?req) 0 ?s1")
  from resilient_http[of requests ?req ?s1] rr
  have "(\<exists>m c. x = Inl (LGTMRequestException m c)) \<or>
      (\<exists>w. x = fst (requests ?req w) \<and> \<not> raises_SSLError (fst (requests ?req w)))"
    by auto
  then show ?thesis
  proof (elim disjE exE conjE)
    fix m c assume "x = Inl (LGTMRequestException m c)"
    with rr show ?thesis
      unfolding make_lgtm_post_def Let_def post_request_def[symmetric] by simp
  next
    fix w assume x: "x = fst (requests ?req w)" and n: "\<not> raises_SSLError (fst (requests ?req w))"
    from assms have a: "case fst (requests ?req w) of
                 Inl e \<Rightarrow> isinstance_SSLError e
               | Inr r \<Rightarrow> (case json_body r of None \<Rightarrow> True | Some body \<Rightarrow> has_status body)"
      unfolding answers_def by blast
    with n x obtain r where r: "x = Inr r"
      and b: "case json_body r of None \<Rightarrow> True | Some body \<Rightarrow> has_status body"
      by (cases "fst (requests ?req w)") auto
    show ?thesis
    proof (cases "json_body r")
      case None
      with rr r show ?thesis
        unfolding make_lgtm_post_def Let_def post_request_def[symmetric] by simp
    next
      case (Some body)
      with b have "has_status body" by simp
      then obtain kvs st where body: "body = JObj kvs" and st: "map_of kvs ''status'' = Some st"
        by (cases body) auto
      show ?thesis
        using rr r Some body st
        unfolding make_lgtm_post_def Let_def post_request_def[symmetric]
        by (cases "map_of kvs ''data''") simp_all
    qed
  qed
qed

lemma force_rebuild_project_answers:
  assumes "answers requests"
  shows "fst (force_rebuild_project requests str self p s) = Inr ()"
proof -
  let ?url = "''https://lgtm.com/internal_api/v0.2/rebuildProtoproject''"
  let ?data = "dict_set (make_post_data p) ''config'' (JStr [])"
  from make_lgtm_post_answers[OF assms, of str self ?url ?data s]
  show ?thesis
    unfolding force_rebuild_project_def Let_def
    by (auto split: prod.splits)
qed

lemma rebuild_requests_Nil [simp]: "rebuild_requests self [] = {}"
  by (simp add: rebuild_requests_def)

lemma rebuild_requests_Cons:
  "rebuild_requests self (p # ps) =
     (if is_protoproject p then insert (rebuild_request self p) (rebuild_requests self ps)
      else rebuild_requests self ps)"
  by (auto simp add: rebuild_requests_def)

lemma rebuild_requests_append:
  "rebuild_requests self (ps @ qs) = rebuild_requests self ps \<union> rebuild_requests self qs"
  by (auto simp add: rebuild_requests_def)

lemma rebuild_projects_sent:
  "\<exists>new. sent (trace (snd (rebuild_projects requests str self ps s))) = sent (trace s) @ new \<and>
     set new \<subseteq> rebuild_requests self ps \<and>
     (answers requests \<longrightarrow>
        fst (rebuild_projects requests str self ps s) = Inr () \<and>
        set new = rebuild_requests self ps)"
proof (induction ps arbitrary: s)
  case Nil
  show ?case by simp
next
  case (Cons p ps)
  show ?case
  proof (cases "is_protoproject p")
    case False
    then have "rebuild_projects requests str self (p # ps) s = rebuild_projects requests str self ps s"
      and "rebuild_requests self (p # ps) = rebuild_requests self ps"
      by (simp_all add: rebuild_requests_Cons)
    with Cons[of s] show ?thesis by simp
  next
    case True
    let ?s0 = "emit (Slept 1) s"
    let ?r = "rebuild_request self p"
    obtain x s' where f: "force_rebuild_project requests str self p ?s0 = (x, s')"
      by (cases "force_rebuild_project requests str self p ?s0")
    from force_rebuild_project_sent[OF True, of requests str self ?s0] f obtain k where
      tr: "sent (trace s') = sent (trace s) @ replicate (Suc k) ?r"
      by auto
    have one: "set (replicate (Suc k) ?r) = {?r}"
      by auto
    have all: "rebuild_requests self (p # ps) = insert ?r (rebuild_requests self ps)"
      using True by (simp add: rebuild_requests_Cons)
    from force_rebuild_project_answers[of requests str self p ?s0] f
    have ok: "answers requests \<Longrightarrow> x = Inr ()" by simp
    show ?thesis
    proof (cases x)
      case (Inl e)
      with ok have na: "\<not> answers requests" by auto
      from Inl f True have "rebuild_projects requests str self (p # ps) s = (Inl e, s')"
        by simp
      then have "sent (trace (snd (rebuild_projects requests str self (p # ps) s))) =
          sent (trace s) @ replicate (Suc k) ?r"
        using tr by simp
      moreover have "set (replicate (Suc k) ?r) \<subseteq> rebuild_requests self (p # ps)"
        unfolding one all by blast
      ultimately show ?thesis using na by blast
    next
      case (Inr u)
      with f True have step: "rebuild_projects requests str self (p # ps) s =
          rebuild_projects requests str self ps s'"
        by simp
      from Cons[of s'] obtain new where
        n1: "sent (trace (snd (rebuild_projects requests str self ps s'))) = sent (trace s') @ new"
        and n2: "set new \<subseteq> rebuild_requests self ps"
        and n3: "answers requests \<longrightarrow>
          fst (rebuild_projects requests str self ps s') = Inr () \<and>
          set new = rebuild_requests self ps"
        by blast
      let ?new = "replicate (Suc k) ?r @ new"
      have "sent (trace (snd (rebuild_projects requests str self (p # ps) s))) =
          sent (trace s) @ ?new"
        unfolding step n1 tr by simp
      moreover have "set ?new \<subseteq> rebuild_requests self (p # ps)"
        unfolding set_append one all using n2 by blast
      moreover have "answers requests \<longrightarrow>
          fst (rebuild_projects requests str self (p # ps) s) = Inr () \<and>
          set ?new = rebuild_requests self (p # ps)"
        unfolding set_append one all step using n3 by auto
      ultimately show ?thesis by blast
    qed
  qed
qed

lemma rebuild_orgs_sent:
  "\<exists>new. sent (trace (snd (rebuild_orgs requests str self g s))) = sent (trace s) @ new \<and>
     set new \<subseteq> rebuild_requests self (concat (map snd g)) \<and>
     (answers requests \<longrightarrow>
        fst (rebuild_orgs requests str self g s) = Inr () \<and>
        set new = rebuild_requests self (concat (map snd g)))"
proof (induction g arbitrary: s)
  case Nil
  show ?case by simp
next
  case (Cons og g)
  obtain org ps where og: "og = (org, ps)" by (cases og)
  obtain x s' where f: "rebuild_projects requests str self ps s = (x, s')"
    by (cases "rebuild_projects requests str self ps s")
  from rebuild_projects_sent[of requests str self ps s] f obtain new1 where
    a1: "sent (trace s') = sent (trace s) @ new1"
    and a2: "set new1 \<subseteq> rebuild_requests self ps"
    and a3: "answers requests \<longrightarrow> x = Inr () \<and> set new1 = rebuild_requests self ps"
    by auto
  have all: "rebuild_requests self (concat (map snd (og # g))) =
      rebuild_requests self ps \<union> rebuild_requests self (concat (map snd g))"
    using og by (simp add: rebuild_requests_append)
  show ?case
  proof (cases x)
    case (Inl e)
    with a3 have na: "\<not> answers requests" by auto
    from Inl f og have "rebuild_orgs requests str self (og # g) s = (Inl e, s')" by simp
    then have "sent (trace (snd (rebuild_orgs requests str self (og # g) s))) = sent (trace s) @ new1"
      using a1 by simp
    moreover have "set new1 \<subseteq> rebuild_requests self (concat (map snd (og # g)))"
      unfolding all using a2 by blast
    ultimately show ?thesis using na by blast
  next
    case (Inr u)
    with f og have step: "rebuild_orgs requests str self (og # g) s = rebuild_orgs requests str self g s'"
      by simp
    from Cons[of s'] obtain new2 where
      n1: "sent (trace (snd (rebuild_orgs requests str self g s'))) = sent (trace s') @ new2"
      and n2: "set new2 \<subseteq> rebuild_requests self (concat (map snd g))"
      and n3: "answers requests \<longrightarrow>
        fst (rebuild_orgs requests str self g s') = Inr () \<and>
        set new2 = rebuild_requests self (concat (map snd g))"
      by blast
    have "sent (trace (snd (rebuild_orgs requests str self (og # g) s))) =
        sent (trace s) @ (new1 @ new2)"
      unfolding step n1 a1 by simp
    moreover have "set (new1 @ new2) \<subseteq> rebuild_requests self (concat (map snd (og # g)))"
      unfolding set_append all using a2 n2 by blast
    moreover have "answers requests \<longrightarrow>
        fst (rebuild_orgs requests str self (og # g) s) = Inr () \<and>
        set (new1 @ new2) = rebuild_requests self (concat (map snd (og # g)))"
      unfolding set_append all step using a3 n3 by auto
    ultimately show ?thesis by blast
  qed
qed

lemma force_rebuild_all_proto_projects_loops:
  "get_my_projects requests str self s = (Inr projects, s') \<Longrightarrow>
   org_to_ids str projects = Inr org_to_projects \<Longrightarrow>
     force_rebuild_all_proto_projects requests str self s =
       rebuild_orgs requests str self org_to_projects s'"
  by (simp add: force_rebuild_all_proto_projects_def)

text \<open>
  Claim C8. When the POST of \<open>force_rebuild_project\<close> raises
  \<open>LGTMRequestException\<close>, the method prints the warning and returns, and the loop
  goes on with the projects that remain. A project that is not a protoproject is passed
  over. When \<open>force_rebuild_all_proto_projects\<close> has fetched the projects and grouped
  them, it runs these loops on the grouping: every request it sends after the fetch is the
  rebuild request of a protoproject of the grouping; and against a service that answers (with
  failures or not), it ends without an exception, having sent the rebuild request of every
  protoproject of the grouping.
\<close>

theorem force_rebuild_tolerates_request_failure:
  "(make_lgtm_post requests str self ''https://lgtm.com/internal_api/v0.2/rebuildProtoproject''
        (dict_set (make_post_data p) ''config'' (JStr [])) s0 =
      (Inl (LGTMRequestException msg cause), s1) \<longrightarrow>
      force_rebuild_project requests str self p s0 =
        (Inr (), emit (Printed_project
           ''Failed rebuilding project. This may be because it is already being built. `%s`'' p) s1) \<and>
      (is_protoproject p \<and> s0 = emit (Slept 1) s \<longrightarrow>
         rebuild_projects requests str self (p # ps) s =
           rebuild_projects requests str self ps (emit (Printed_project
             ''Failed rebuilding project. This may be because it is already being built. `%s`'' p) s1))) \<and>
   (\<not> is_protoproject p \<longrightarrow>
      rebuild_projects requests str self (p # ps) s = rebuild_projects requests str self ps s) \<and>
   (\<exists>new. sent (trace (snd (rebuild_orgs requests str self org_to_projects s))) = sent (trace s) @ new \<and>
      set new \<subseteq> rebuild_requests self (concat (map snd org_to_projects)) \<and>
      (answers requests \<longrightarrow>
         fst (rebuild_orgs requests str self org_to_projects s) = Inr () \<and>
         set new = rebuild_requests self (concat (map snd org_to_projects)))) \<and>
   (get_my_projects requests str self s = (Inr projects, s') \<and>
    org_to_ids str projects = Inr org_to_projects \<longrightarrow>
      force_rebuild_all_proto_projects requests str self s =
        rebuild_orgs requests str self org_to_projects s' \<and>
      (\<exists>new. sent (trace (snd (force_rebuild_all_proto_projects requests str self s))) =
               sent (trace s') @ new \<and>
         set new \<subseteq> rebuild_requests self (concat (map snd org_to_projects)) \<and>
         (answers requests \<longrightarrow>
            fst (force_rebuild_all_proto_projects requests str self s) = Inr () \<and>
            set new = rebuild_requests self (concat (map snd org_to_projects)))))"
proof (intro conjI impI)
  assume a: "make_lgtm_post requests str self ''https://lgtm.com/internal_api/v0.2/rebuildProtoproject''
        (dict_set (make_post_data p) ''config'' (JStr [])) s0 =
      (Inl (LGTMRequestException msg cause), s1)"
  then show c: "force_rebuild_project requests str self p s0 =
        (Inr (), emit (Printed_project
           ''Failed rebuilding project. This may be because it is already being built. `%s`'' p) s1)"
    by (simp add: force_rebuild_project_def)
  assume "is_protoproject p \<and> s0 = emit (Slept 1) s"
  with c show "rebuild_projects requests str self (p # ps) s =
           rebuild_projects requests str self ps (emit (Printed_project
             ''Failed rebuilding project. This may be because it is already being built. `%s`'' p) s1)"
    by simp
next
  assume "\<not> is_protoproject p"
  then show "rebuild_projects requests str self (p # ps) s = rebuild_projects requests str self ps s"
    by simp
next
  show "\<exists>new. sent (trace (snd (rebuild_orgs requests str self org_to_projects s))) = sent (trace s) @ new \<and>
      set new \<subseteq> rebuild_requests self (concat (map snd org_to_projects)) \<and>
      (answers requests \<longrightarrow>
         fst (rebuild_orgs requests str self org_to_projects s) = Inr () \<and>
         set new = rebuild_requests self (concat (map snd org_to_projects)))"
    by (rule rebuild_orgs_sent)
next
  assume "get_my_projects requests str self s = (Inr projects, s') \<and>
    org_to_ids str projects = Inr org_to_projects"
  then have bulk: "force_rebuild_all_proto_projects requests str self s =
        rebuild_orgs requests str self org_to_projects s'"
    by (simp add: force_rebuild_all_proto_projects_loops)
  then show "force_rebuild_all_proto_projects requests str self s =
        rebuild_orgs requests str self org_to_projects s'" .
  show "\<exists>new. sent (trace (snd (force_rebuild_all_proto_projects requests str self s))) =
               sent (trace s') @ new \<and>
         set new \<subseteq> rebuild_requests self (concat (map snd org_to_projects)) \<and>
         (answers requests \<longrightarrow>
            fst (force_rebuild_all_proto_projects requests str self s) = Inr () \<and>
            set new = rebuild_requests self (concat (map snd org_to_projects)))"
    unfolding bulk by (rule rebuild_orgs_sent)
qed

theorem force_rebuild_tolerates_request_failure_witness:
  "fst (force_rebuild_all_proto_projects
          (\<lambda>req w.
             (if verb req = GET
              then Inr \<lparr>body_text = ''projects'',
                         json_body = Some (JObj [(''status'', JStr ''success''),
                           (''data'', JArr
                              [JObj [(''protoproject'', JObj [(''cloneUrl'', JStr ''https://github.com/orgA/x''),
                                  (''displayName'', JStr ''orgA/x''), (''key'', JStr ''p1'')])],
                               JObj [(''realProject'', JArr [JObj [(''slug'', JStr ''g/orgA/y''),
                                  (''displayName'', JStr ''orgA/y''), (''key'', JStr ''p2''),
                                  (''repoProvider'', JStr ''github_apps'')]])],
                               JObj [(''protoproject'', JObj [(''cloneUrl'', JStr ''https://github.com/orgB/z''),
                                  (''displayName'', JStr ''orgB/z''), (''key'', JStr ''p3'')])]])])\<rparr>
              else Inr \<lparr>body_text = ''busy'', json_body = Some (JObj [(''status'', JStr ''error'')])\<rparr>,
              w))
          (\<lambda>v. [])
          \<lparr>nonce = ''n'', long_session = ''l'', short_session = ''s'', api_version = ''v''\<rparr>
          \<lparr>remote = (), trace = []\<rparr>) = Inr () \<and>
   set (sent (trace (snd (force_rebuild_all_proto_projects
          (\<lambda>req w.
             (if verb req = GET
              then Inr \<lparr>body_text = ''projects'',
                         json_body = Some (JObj [(''status'', JStr ''success''),
                           (''data'', JArr
                              [JObj [(''protoproject'', JObj [(''cloneUrl'', JStr ''https://github.com/orgA/x''),
                                  (''displayName'', JStr ''orgA/x''), (''key'', JStr ''p1'')])],
                               JObj [(''realProject'', JArr [JObj [(''slug'', JStr ''g/orgA/y''),
                                  (''displayName'', JStr ''orgA/y''), (''key'', JStr ''p2''),
                                  (''repoProvider'', JStr ''github_apps'')]])],
                               JObj [(''protoproject'', JObj [(''cloneUrl'', JStr ''https://github.com/orgB/z''),
                                  (''displayName'', JStr ''orgB/z''), (''key'', JStr ''p3'')])]])])\<rparr>
              else Inr \<lparr>body_text = ''busy'', json_body = Some (JObj [(''status'', JStr ''error'')])\<rparr>,
              w))
          (\<lambda>v. [])
          \<lparr>nonce = ''n'', long_session = ''l'', short_session = ''s'', api_version = ''v''\<rparr>
          \<lparr>remote = (), trace = []\<rparr>)))) =
     {get_request \<lparr>nonce = ''n'', long_session = ''l'', short_session = ''s'', api_version = ''v''\<rparr>
        ''https://lgtm.com/internal_api/v0.2/getMyProjects?apiVersion=v'',
      rebuild_request \<lparr>nonce = ''n'', long_session = ''l'', short_session = ''s'', api_version = ''v''\<rparr>
        \<lparr>display_name = JStr ''orgA/x'', key = JStr ''p1'', is_protoproject = True\<rparr>,
      rebuild_request \<lparr>nonce = ''n'', long_session = ''l'', short_session = ''s'', api_version = ''v''\<rparr>
        \<lparr>display_name = JStr ''orgB/z'', key = JStr ''p3'', is_protoproject = True\<rparr>} \<and>
   fst (force_rebuild_project
          (\<lambda>req w. (Inr \<lparr>body_text = ''busy'', json_body = Some (JObj [(''status'', JStr ''error'')])\<rparr>, w))
          (\<lambda>v. [])
          \<lparr>nonce = ''n'', long_session = ''l'', short_session = ''s'', api_version = ''v''\<rparr>
          \<lparr>display_name = JStr ''orgA/x'', key = JStr ''p1'', is_protoproject = True\<rparr>
          \<lparr>remote = (), trace = []\<rparr>) = Inr () \<and>
   rebuild_projects
          (\<lambda>req w. (Inr \<lparr>body_text = ''busy'', json_body = Some (JObj [(''status'', JStr ''error'')])\<rparr>, w))
          (\<lambda>v. [])
          \<lparr>nonce = ''n'', long_session = ''l'', short_session = ''s'', api_version = ''v''\<rparr>
          [\<lparr>display_name = JStr ''orgA/y'', key = JStr ''p2'', is_protoproject = False\<rparr>]
          \<lparr>remote = (), trace = []\<rparr> = (Inr (), \<lparr>remote = (), trace = []\<rparr>)"
proof -
  let ?data = "JArr
     [JObj [(''protoproject'', JObj [(''cloneUrl'', JStr ''https://github.com/orgA/x''),
         (''displayName'', JStr ''orgA/x''), (''key'', JStr ''p1'')])],
      JObj [(''realProject'', JArr [JObj [(''slug'', JStr ''g/orgA/y''),
         (''displayName'', JStr ''orgA/y''), (''key'', JStr ''p2''),
         (''repoProvider'', JStr ''github_apps'')]])],
      JObj [(''protoproject'', JObj [(''cloneUrl'', JStr ''https://github.com/orgB/z''),
         (''displayName'', JStr ''orgB/z''), (''key'', JStr ''p3'')])]]"
  let ?listing = "\<lparr>body_text = ''projects'',
      json_body = Some (JObj [(''status'', JStr ''success''), (''data'', ?data)])\<rparr>"
  let ?failure = "\<lparr>body_text = ''busy'', json_body = Some (JObj [(''status'', JStr ''error'')])\<rparr>"
  let ?svc = "\<lambda>(req::request) (w::unit).
    (if verb req = GET then Inr ?listing else Inr ?failure :: py_error + response, w)"
  let ?busy = "\<lambda>(req::request) (w::unit). (Inr ?failure :: py_error + response, w)"
  let ?str = "\<lambda>v::json. [] :: string"
  let ?site = "\<lparr>nonce = ''n'', long_session = ''l'', short_session = ''s'', api_version = ''v''\<rparr>"
  let ?p1 = "\<lparr>display_name = JStr ''orgA/x'', key = JStr ''p1'', is_protoproject = True\<rparr>"
  let ?p2 = "\<lparr>display_name = JStr ''orgA/y'', key = JStr ''p2'', is_protoproject = False\<rparr>"
  let ?p3 = "\<lparr>display_name = JStr ''orgB/z'', key = JStr ''p3'', is_protoproject = True\<rparr>"
  let ?g = "[(''orgA'', [?p1, ?p2]), (''orgB'', [?p3])]"
  let ?s = "\<lparr>remote = (), trace = []\<rparr> :: unit world"
  let ?get = "get_request ?site ''https://lgtm.com/internal_api/v0.2/getMyProjects?apiVersion=v''"
  let ?s' = "\<lparr>remote = (), trace = [Sent ?get]\<rparr> :: unit world"
  let ?url = "''https://lgtm.com/internal_api/v0.2/rebuildProtoproject''"
  let ?post = "dict_set (make_post_data ?p1) ''config'' (JStr [])"
  have h_answers: "answers ?svc"
    by (simp add: answers_def)
  have h_not: "\<not> is_protoproject ?p2"
    by simp
  have h_get: "get_my_projects ?svc ?str ?site ?s = (Inr ?data, ?s')"
    using get_my_projects_success[of ?svc ?site ?s ?listing "()"
        "[(''status'', JStr ''success''), (''data'', ?data)]" ?data ?str]
    by (simp add: get_request_def get_my_projects_url_def)
  have h_groups: "org_to_ids ?str ?data = Inr ?g"
    by (simp add: org_to_ids_def project_fields_def and_then_def nth_item_def append_project_def
          py_str_def)
  obtain s1 where h_fail: "make_lgtm_post ?busy ?str ?site ?url ?post ?s =
      (Inl (LGTMRequestException
          (''LGTM POST request failed with response: '' @ py_str ?str (JObj [(''status'', JStr ''error'')]))
          None), s1)"
    using make_lgtm_post_not_success[of ?busy ?site ?url ?post ?s ?failure "()"
        "[(''status'', JStr ''error'')]" "JStr ''error''" ?str]
    by simp
  note t1 = force_rebuild_tolerates_request_failure[of ?busy ?str ?site ?p1 ?s _ _ s1 ?s "[]" ?g ?data ?s]
  note t2 = force_rebuild_tolerates_request_failure[of ?busy ?str ?site ?p2 ?s _ _ ?s ?s "[]" ?g ?data ?s]
  note t3 = force_rebuild_tolerates_request_failure[of ?svc ?str ?site ?p2 ?s _ _ ?s ?s "[]" ?g ?data ?s']
  from t1 h_fail have c1: "fst (force_rebuild_project ?busy ?str ?site ?p1 ?s) = Inr ()"
    by simp
  from t2 h_not have c2: "rebuild_projects ?busy ?str ?site [?p2] ?s = (Inr (), ?s)"
    by simp
  from t3 h_get h_groups h_answers obtain new where
    "sent (trace (snd (force_rebuild_all_proto_projects ?svc ?str ?site ?s))) = sent (trace ?s') @ new"
    "fst (force_rebuild_all_proto_projects ?svc ?str ?site ?s) = Inr ()"
    "set new = rebuild_requests ?site (concat (map snd ?g))"
    by blast
  then have c3: "fst (force_rebuild_all_proto_projects ?svc ?str ?site ?s) = Inr ()"
    and c4: "set (sent (trace (snd (force_rebuild_all_proto_projects ?svc ?str ?site ?s)))) =
      {?get, rebuild_request ?site ?p1, rebuild_request ?site ?p3}"
    by (simp_all add: rebuild_requests_Cons)
  from c1 c2 c3 c4 show ?thesis by simp
qed

end
